theory Spec2Isabelle
  imports Complex_Main "HOL-Library.Multiset"
begin

section \<open>Kinematic solver\<close>

text \<open>
  \<^verbatim>\<open>MEM::Integrand::solve\<close> (Integrand.cpp, lines 1945-2037) reads its parent four-momentum
  \<^verbatim>\<open>p4_w\<close> and the direction \<^verbatim>\<open>e_b\<close> only through three numbers returned by the ROOT
  vector library: \<^verbatim>\<open>p4_w.E()\<close>, \<^verbatim>\<open>TMath::Cos(p4_w.Angle(e_b))\<close> and \<^verbatim>\<open>p4_w.Beta()\<close>.
  The model takes these three numbers (\<open>pE\<close>, \<open>cos_angle\<close>, \<open>beta\<close>) in place of the
  two vectors. Doubles are real numbers here: arithmetic is exact, and the theorems
  below carry as hypotheses that no divisor is zero, since at a zero divisor the C++
  continues with an IEEE infinity or NaN that a real number cannot stand for.
  The in/out parameter \<^verbatim>\<open>int& accept\<close> is passed in and returned.
\<close>

definition DBL_MAX :: real where
  \<comment> \<open>\<^verbatim>\<open>numeric_limits<double>::max()\<close>, the "no solution" sentinel\<close>
  "DBL_MAX = (2 - 1 / 2 ^ 52) * 2 ^ 1023"

definition root_p :: "real \<Rightarrow> real \<Rightarrow> real" where
  \<comment> \<open>\<^verbatim>\<open>g_p = (a + TMath::Abs(b)*sqrt(a2 + b2 - 1))/(1-b2)\<close>\<close>
  "root_p a b = (a + \<bar>b\<bar> * sqrt (a * a + b * b - 1)) / (1 - b * b)"

definition root_m :: "real \<Rightarrow> real \<Rightarrow> real" where
  \<comment> \<open>\<^verbatim>\<open>g_m = (a - TMath::Abs(b)*sqrt(a2 + b2 - 1))/(1-b2)\<close>\<close>
  "root_m a b = (a - \<bar>b\<bar> * sqrt (a * a + b * b - 1)) / (1 - b * b)"

definition solve :: "real \<Rightarrow> real \<Rightarrow> real \<Rightarrow> real \<Rightarrow> real \<Rightarrow> real \<Rightarrow> int \<Rightarrow> real \<times> int" where
  "solve pE cos_angle beta DM2 M target accept =
     (let a = DM2 / pE;
          b = cos_angle
      in if M < 1 / 1000 then
           (if b < 1 then (a / (1 - b), accept) else (DBL_MAX, - 1))
         else
           (let a = a / M;
                b = b * beta;
                a2 = a * a;
                b2 = b * b;
                discr = a2 + b2 - a2 * b2 - 1
            in if a2 + b2 - 1 < 0 then (DBL_MAX, - 1)
               else
                 (let g_p = root_p a b;
                      g_m = root_m a b
                  in if g_p < 1 then (DBL_MAX, - 1)
                     else
                       (let g_m = (if g_m < 1 then g_p else g_m)
                        in if b > 0 then
                             (if discr < 0 then
                                (if \<bar>target - g_p\<bar> < \<bar>target - g_m\<bar> then g_p * M else g_m * M,
                                 accept)
                              else (g_p * M, accept))
                           else
                             (if discr > 0 then (g_m * M, accept) else (DBL_MAX, - 1))))))"

text \<open>
  The coefficients as the specification words them for both branches:
  \<open>a = \<Delta>M\<^sup>2 / (P.E \<cdot> M)\<close> and \<open>b = cos(angle(P, e)) \<cdot> P.\<beta>\<close>.
\<close>

definition spec_a :: "real \<Rightarrow> real \<Rightarrow> real \<Rightarrow> real" where
  "spec_a pE DM2 M = DM2 / (pE * M)"

definition spec_b :: "real \<Rightarrow> real \<Rightarrow> real" where
  "spec_b cos_angle beta = cos_angle * beta"


section \<open>Double-precision values\<close>

text \<open>
  Where a claim speaks of NaN or of the largest double, a \<^verbatim>\<open>double\<close> is a value of
  \<open>dbl\<close>: a real number, an infinity or NaN. Rounding is left out (arithmetic on finite
  values is exact); a finite result beyond the largest double becomes an infinity, and
  infinities and NaN combine by the IEEE 754 rules.
\<close>

datatype dbl = Fin real | PInf | NInf | NaN

definition rnd :: "real \<Rightarrow> dbl" where
  "rnd r = (if DBL_MAX < r then PInf else if r < - DBL_MAX then NInf else Fin r)"

fun dneg :: "dbl \<Rightarrow> dbl" where
  "dneg (Fin a) = Fin (- a)"
| "dneg PInf = NInf"
| "dneg NInf = PInf"
| "dneg NaN = NaN"

fun dadd :: "dbl \<Rightarrow> dbl \<Rightarrow> dbl" where
  "dadd NaN _ = NaN"
| "dadd _ NaN = NaN"
| "dadd (Fin a) (Fin b) = rnd (a + b)"
| "dadd PInf NInf = NaN"
| "dadd NInf PInf = NaN"
| "dadd PInf _ = PInf"
| "dadd NInf _ = NInf"
| "dadd (Fin a) PInf = PInf"
| "dadd (Fin a) NInf = NInf"

definition dsub :: "dbl \<Rightarrow> dbl \<Rightarrow> dbl" where
  "dsub x y = dadd x (dneg y)"

fun inf_times :: "bool \<Rightarrow> real \<Rightarrow> dbl" where
  \<comment> \<open>an infinity (positive when the flag is set) times a finite value\<close>
  "inf_times pos a =
     (if a = 0 then NaN else if (0 < a) = pos then PInf else NInf)"

fun dmul :: "dbl \<Rightarrow> dbl \<Rightarrow> dbl" where
  "dmul NaN _ = NaN"
| "dmul _ NaN = NaN"
| "dmul (Fin a) (Fin b) = rnd (a * b)"
| "dmul (Fin a) PInf = inf_times True a"
| "dmul (Fin a) NInf = inf_times False a"
| "dmul PInf (Fin b) = inf_times True b"
| "dmul NInf (Fin b) = inf_times False b"
| "dmul PInf PInf = PInf"
| "dmul NInf NInf = PInf"
| "dmul PInf NInf = NInf"
| "dmul NInf PInf = NInf"

fun dsqrt :: "dbl \<Rightarrow> dbl" where
  "dsqrt (Fin a) = (if a < 0 then NaN else Fin (sqrt a))"
| "dsqrt PInf = PInf"
| "dsqrt NInf = NaN"
| "dsqrt NaN = NaN"

fun dge :: "dbl \<Rightarrow> dbl \<Rightarrow> bool" where
  \<comment> \<open>\<^verbatim>\<open>a >= b\<close>: false as soon as one side is NaN\<close>
  "dge NaN _ = False"
| "dge _ NaN = False"
| "dge (Fin a) (Fin b) = (b \<le> a)"
| "dge PInf _ = True"
| "dge _ NInf = True"
| "dge (Fin a) PInf = False"
| "dge NInf (Fin b) = False"
| "dge NInf PInf = False"

definition TMath_Max :: "dbl \<Rightarrow> dbl \<Rightarrow> dbl" where
  \<comment> \<open>ROOT's \<^verbatim>\<open>TMath::Max(a,b)\<close> is \<^verbatim>\<open>(a >= b) ? a : b\<close>\<close>
  "TMath_Max a b = (if dge a b then a else b)"

fun TMath_IsNaN :: "dbl \<Rightarrow> bool" where
  "TMath_IsNaN NaN = True"
| "TMath_IsNaN _ = False"

fun is_finite :: "dbl \<Rightarrow> bool" where
  "is_finite (Fin a) = True"
| "is_finite _ = False"

section \<open>Data model\<close>

text \<open>
  The enumerations, \<^verbatim>\<open>Object\<close>, \<^verbatim>\<open>MEMConfig\<close>, \<^verbatim>\<open>MEMOutput\<close> and the members of
  \<^verbatim>\<open>Integrand\<close> are declared in \<^verbatim>\<open>interface/Integrand.h\<close>; the model lists the
  enumerators and members that Integrand.cpp uses. Observables, integration
  coordinates and the integrator's results are real numbers; sizes and the counters
  \<^verbatim>\<open>n_calls\<close> and \<^verbatim>\<open>n_skip\<close> are natural numbers.
\<close>

datatype FinalState = FS_HH | FS_LH | FS_LL | FS_TTH | FS_Undefined

datatype Hypothesis = Hypo_TTH | Hypo_TTBB | Hypo_Undefined

datatype PSPart =
    Part_q1 | Part_qbar1 | Part_b1 | Part_q2 | Part_qbar2 | Part_b2 | Part_b | Part_bbar
  | Part_t | Part_tbar | Part_h

datatype PSVar =
    E_q1 | cos_q1 | phi_q1 | E_qbar1 | cos_qbar1 | phi_qbar1 | E_b1 | cos_b1 | phi_b1
  | E_q2 | cos_q2 | phi_q2 | E_qbar2 | cos_qbar2 | phi_qbar2 | E_b2 | cos_b2 | phi_b2
  | E_b | cos_b | phi_b | E_bbar | cos_bbar | phi_bbar
  | P_t | cos_t | phi_t | P_tbar | cos_tbar | phi_tbar | Pz_h

datatype Observable = E_LOW_Q | E_HIGH_Q | E_LOW_B | E_HIGH_B | BTAG | CHARGE

datatype Permutations = BTagged | QUntagged | QQbarSymmetry | BBbarSymmetry

datatype TFType =
  TF_qReco | TF_bReco | TF_qLost | TF_bLost | TF_muReco | TF_MET | TF_Recoil | TF_Unknown

record LV =
  lv_Px :: dbl
  lv_Py :: dbl
  lv_Pz :: dbl
  lv_E :: dbl

record Object =
  obj_p4 :: LV
  obj_obs :: "Observable \<rightharpoonup> real"

record MEMConfig =
  int_code :: int
  perm_int :: int
  tf_suppress :: int
  perm_pruning :: "Permutations list"
  is_default :: bool
  cfg_n_max_calls :: nat
  calls :: "FinalState \<Rightarrow> Hypothesis \<Rightarrow> nat \<Rightarrow> nat"
  highpt_first :: int

record MEMOutput =
  out_p :: real
  out_p_err :: real
  out_chi2 :: real
  out_time :: int
  out_num_perm :: nat
  out_final_state :: FinalState
  out_hypothesis :: Hypothesis
  out_assumption :: nat
  out_num_max_calls :: nat
  out_num_calls :: nat
  out_efficiency :: dbl
  out_error_code :: int

record integrand =
  error_code :: int
  num_of_vars :: int
  ps_dim :: nat
  naive_jet_counting :: nat
  extra_jets :: nat
  fs :: FinalState
  hypo :: Hypothesis
  n_calls :: nat
  n_max_calls :: nat
  n_skip :: nat
  this_perm :: nat
  cfg :: MEMConfig
  obs_jets :: "Object list"
  obs_leptons :: "Object list"
  obs_mets :: "Object list"
  perm_indexes :: "int list list"
  perm_indexes_assumption :: "int list list"
  perm_const_assumption :: "real list"
  map_to_var :: "PSVar \<rightharpoonup> nat"
  map_to_part :: "PSPart \<rightharpoonup> nat"

text \<open>
  Undefined behaviour of the C++ is a value of the model: reading a vector outside
  its range, dereferencing \<^verbatim>\<open>map::find\<close> for an absent key, reading an observable that
  was never set, and a failed \<^verbatim>\<open>assert\<close>.
\<close>

datatype error = OutOfRange | KeyNotFound | ObservableNotSet | AssertionFailed

definition bindE :: "error + 'a \<Rightarrow> ('a \<Rightarrow> error + 'b) \<Rightarrow> error + 'b" where
  "bindE m f = (case m of Inl e \<Rightarrow> Inl e | Inr v \<Rightarrow> f v)"

definition vec_at :: "'a list \<Rightarrow> nat \<Rightarrow> error + 'a" where
  \<comment> \<open>\<^verbatim>\<open>v[i]\<close> for a \<^verbatim>\<open>size_t\<close> index\<close>
  "vec_at xs i = (if i < length xs then Inr (xs ! i) else Inl OutOfRange)"

definition vec_at_int :: "'a list \<Rightarrow> int \<Rightarrow> error + 'a" where
  \<comment> \<open>\<^verbatim>\<open>v[i]\<close> for an \<^verbatim>\<open>int\<close> index: a negative one converts to a huge \<^verbatim>\<open>size_t\<close>\<close>
  "vec_at_int xs i = (if 0 \<le> i \<and> nat i < length xs then Inr (xs ! nat i) else Inl OutOfRange)"

fun collect :: "(error + 'a) list \<Rightarrow> error + 'a list" where
  "collect [] = Inr []"
| "collect (m # ms) =
     (case m of Inl e \<Rightarrow> Inl e
      | Inr v \<Rightarrow> (case collect ms of Inl e \<Rightarrow> Inl e | Inr vs \<Rightarrow> Inr (v # vs)))"

definition find_part :: "integrand \<Rightarrow> PSPart \<Rightarrow> error + nat" where
  \<comment> \<open>\<^verbatim>\<open>map_to_part.find(part)->second\<close>\<close>
  "find_part st part = (case map_to_part st part of None \<Rightarrow> Inl KeyNotFound | Some i \<Rightarrow> Inr i)"

definition getObs :: "Object \<Rightarrow> Observable \<Rightarrow> error + real" where
  "getObs obj name = (case obj_obs obj name of None \<Rightarrow> Inl ObservableNotSet | Some v \<Rightarrow> Inr v)"

section \<open>Permutation engine\<close>

definition init_perm_index :: "nat \<Rightarrow> nat \<Rightarrow> int list" where
  \<comment> \<open>\<^verbatim>\<open>init\<close>, lines 73-79: the jet positions, padded with \<open>-1\<close> up to the slot count\<close>
  "init_perm_index n_jets naive = map int [0..<n_jets] @ replicate (naive - n_jets) (- 1)"

fun assign_lost :: "(PSVar \<rightharpoonup> nat) \<Rightarrow> PSVar list \<Rightarrow> nat \<Rightarrow> (PSVar \<rightharpoonup> nat)" where
  \<comment> \<open>\<^verbatim>\<open>for( auto l = lost.begin() ; l!=lost.end() ; ++l ) map_to_var[*l] = count_extra++;\<close>\<close>
  "assign_lost mv [] count_extra = mv"
| "assign_lost mv (l # ls) count_extra = assign_lost (mv(l \<mapsto> count_extra)) ls (Suc count_extra)"

definition fill_map :: "integrand \<Rightarrow> PSVar list \<Rightarrow> integrand" where
  "fill_map st lost =
     (let ttbb = (hypo st = Hypo_TTBB);
          extra = (if ttbb then 1 else 0 :: nat)
      in case fs st of
        FS_LH \<Rightarrow>
          (let mp = (map_to_part st)(Part_q2 \<mapsto> 0, Part_q1 \<mapsto> 0, Part_qbar1 \<mapsto> 1,
                      Part_b1 \<mapsto> 2, Part_b2 \<mapsto> 3, Part_b \<mapsto> 4, Part_bbar \<mapsto> 5);
               mv = (map_to_var st)(E_q1 \<mapsto> 0, cos_qbar2 \<mapsto> 1, phi_qbar2 \<mapsto> 2, E_b \<mapsto> 3);
               mv = (if ttbb then mv(E_bbar \<mapsto> 4) else mv)
           in st\<lparr>map_to_part := mp, map_to_var := assign_lost mv lost (4 + extra)\<rparr>)
      | FS_LL \<Rightarrow>
          (let mp = (map_to_part st)(Part_q1 \<mapsto> 0, Part_q2 \<mapsto> 1, Part_b1 \<mapsto> 0,
                      Part_b2 \<mapsto> 1, Part_b \<mapsto> 2, Part_bbar \<mapsto> 3);
               mv = (map_to_var st)(cos_qbar1 \<mapsto> 0, phi_qbar1 \<mapsto> 1, cos_qbar2 \<mapsto> 2,
                      phi_qbar2 \<mapsto> 3, E_b \<mapsto> 4);
               mv = (if ttbb then mv(E_bbar \<mapsto> 5) else mv)
           in st\<lparr>map_to_part := mp, map_to_var := assign_lost mv lost (5 + extra)\<rparr>)
      | FS_HH \<Rightarrow>
          (let mp = (map_to_part st)(Part_q1 \<mapsto> 0, Part_qbar1 \<mapsto> 1, Part_b1 \<mapsto> 2,
                      Part_q2 \<mapsto> 3, Part_qbar2 \<mapsto> 4, Part_b2 \<mapsto> 5, Part_b \<mapsto> 6,
                      Part_bbar \<mapsto> 7);
               mv = (map_to_var st)(E_q1 \<mapsto> 0, E_q2 \<mapsto> 1, E_b \<mapsto> 2);
               mv = (if ttbb then mv(E_bbar \<mapsto> 3) else mv)
           in st\<lparr>map_to_part := mp, map_to_var := assign_lost mv lost (3 + extra)\<rparr>)
      | FS_TTH \<Rightarrow>
          st\<lparr>map_to_var := (map_to_var st)(P_t \<mapsto> 0, cos_t \<mapsto> 1, phi_t \<mapsto> 2, P_tbar \<mapsto> 3,
                cos_tbar \<mapsto> 4, phi_tbar \<mapsto> 5, Pz_h \<mapsto> 6)\<rparr>
      | FS_Undefined \<Rightarrow> st)"

definition test_assumption :: "integrand \<Rightarrow> nat \<Rightarrow> bool \<times> integrand" where
  "test_assumption st lost =
     (if length (obs_jets st) + lost < naive_jet_counting st then (False, st)
      else (True, st\<lparr>extra_jets := length (obs_jets st) + lost - naive_jet_counting st\<rparr>))"

text \<open>\<^verbatim>\<open>accept_perm\<close>: the pruning strategies, in the order requested.\<close>

fun tag_discards :: "Object list \<Rightarrow> int list \<Rightarrow> (real \<Rightarrow> bool) \<Rightarrow> nat list \<Rightarrow> error + bool" where
  \<comment> \<open>the loop over \<^verbatim>\<open>indexes1\<close> of the strategies BTagged (\<open>bad v\<close> is \<open>v < 0.5\<close>) and
      QUntagged (\<open>v > 0.5\<close>); the answer is whether the permutation is discarded\<close>
  "tag_discards jets perm bad [] = Inr False"
| "tag_discards jets perm bad (ind # inds) =
     (case vec_at perm ind of
        Inl e \<Rightarrow> Inl e
      | Inr j \<Rightarrow>
          if 0 \<le> j then
            (case vec_at jets (nat j) of
               Inl e \<Rightarrow> Inl e
             | Inr obj \<Rightarrow>
                 (case obj_obs obj BTAG of
                    Some v \<Rightarrow> if bad v then Inr True else tag_discards jets perm bad inds
                  | None \<Rightarrow> tag_discards jets perm bad inds))
          else tag_discards jets perm bad inds)"

definition eq_at :: "int list \<Rightarrow> nat \<Rightarrow> int list \<Rightarrow> nat \<Rightarrow> error + bool" where
  \<comment> \<open>\<^verbatim>\<open>visited[i]==perm[j]\<close>\<close>
  "eq_at visited i perm j =
     bindE (vec_at visited i) (\<lambda>a. bindE (vec_at perm j) (\<lambda>c. Inr (a = c)))"

definition and_then :: "error + bool \<Rightarrow> error + bool \<Rightarrow> error + bool" where
  \<comment> \<open>\<^verbatim>\<open>&&\<close>: the right operand is evaluated only when the left one holds\<close>
  "and_then l r = (case l of Inl e \<Rightarrow> Inl e | Inr True \<Rightarrow> r | Inr False \<Rightarrow> Inr False)"

fun asymmetric_part :: "int list \<Rightarrow> int list \<Rightarrow> nat list \<Rightarrow> error + bool" where
  "asymmetric_part visited perm [] = Inr True"
| "asymmetric_part visited perm (same # rest) =
     (case eq_at visited same perm same of
        Inl e \<Rightarrow> Inl e
      | Inr c \<Rightarrow>
          (case asymmetric_part visited perm rest of
             Inl e \<Rightarrow> Inl e
           | Inr r \<Rightarrow> Inr (c \<and> r)))"

fun symmetric_part :: "int list \<Rightarrow> int list \<Rightarrow> nat list \<Rightarrow> error + bool" where
  "symmetric_part visited perm (i0 # i1 # rest) =
     (case and_then (eq_at visited i0 perm i0) (eq_at visited i1 perm i1) of
        Inl e \<Rightarrow> Inl e
      | Inr same \<Rightarrow>
          (case and_then (eq_at visited i0 perm i1) (eq_at visited i1 perm i0) of
             Inl e \<Rightarrow> Inl e
           | Inr swap \<Rightarrow>
               (case symmetric_part visited perm rest of
                  Inl e \<Rightarrow> Inl e
                | Inr r \<Rightarrow> Inr ((same \<or> swap) \<and> r))))"
| "symmetric_part visited perm rest = Inr True"

fun swap_found :: "int list list \<Rightarrow> int list \<Rightarrow> nat list \<Rightarrow> nat list \<Rightarrow> error + bool" where
  \<comment> \<open>the loop over the permutations already kept for this assumption\<close>
  "swap_found [] perm indexes1 indexes2 = Inr False"
| "swap_found (visited # others) perm indexes1 indexes2 =
     (case asymmetric_part visited perm indexes2 of
        Inl e \<Rightarrow> Inl e
      | Inr a \<Rightarrow>
          (case symmetric_part visited perm indexes1 of
             Inl e \<Rightarrow> Inl e
           | Inr s \<Rightarrow>
               if a \<and> s then Inr True else swap_found others perm indexes1 indexes2))"

definition find_parts :: "integrand \<Rightarrow> PSPart list \<Rightarrow> error + nat list" where
  "find_parts st parts = collect (map (find_part st) parts)"

definition strategy_discards :: "integrand \<Rightarrow> int list \<Rightarrow> Permutations \<Rightarrow> error + bool" where
  "strategy_discards st perm s =
     (case s of
        BTagged \<Rightarrow>
          bindE (find_parts st [Part_b1, Part_b2, Part_b, Part_bbar])
            (\<lambda>indexes1. tag_discards (obs_jets st) perm (\<lambda>v. v < 1 / 2) indexes1)
      | QUntagged \<Rightarrow>
          bindE (find_parts st
                   (if fs st = FS_LH then [Part_q1, Part_qbar1]
                    else if fs st = FS_HH then [Part_q1, Part_qbar1, Part_q2, Part_qbar2]
                    else []))
            (\<lambda>indexes1. tag_discards (obs_jets st) perm (\<lambda>v. 1 / 2 < v) indexes1)
      | _ \<Rightarrow>
          (let bb = (if s = BBbarSymmetry then [Part_b, Part_bbar] else []);
               sym = (if fs st = FS_LH then [Part_q1, Part_qbar1] @ bb
                      else if fs st = FS_LL then bb
                      else if fs st = FS_HH then [Part_q1, Part_qbar1, Part_q2, Part_qbar2] @ bb
                      else []);
               asym = (if fs st = FS_LH \<or> fs st = FS_LL \<or> fs st = FS_HH
                       then [Part_b1, Part_b2] else [])
           in bindE (find_parts st sym) (\<lambda>indexes1.
              bindE (find_parts st asym) (\<lambda>indexes2.
                swap_found (perm_indexes_assumption st) perm indexes1 indexes2))))"

fun accept_perm :: "integrand \<Rightarrow> int list \<Rightarrow> Permutations list \<Rightarrow> error + bool" where
  "accept_perm st perm [] = Inr True"
| "accept_perm st perm (s # strategies) =
     (case strategy_discards st perm s of
        Inl e \<Rightarrow> Inl e
      | Inr discard \<Rightarrow> if discard then Inr False else accept_perm st perm strategies)"

text \<open>\<^verbatim>\<open>get_permutation_constants\<close>\<close>

definition DeltaE :: "integrand \<Rightarrow> int list \<Rightarrow> PSPart \<Rightarrow> Observable \<Rightarrow> Observable \<Rightarrow> error + real" where
  \<comment> \<open>\<^verbatim>\<open>pos = map_to_part.find(part)->second; obj = obs_jets[ perm[pos] ];\<close>
      \<^verbatim>\<open>DeltaE = (obj->getObs(high) - obj->getObs(low));\<close>\<close>
  "DeltaE st perm part high low =
     bindE (find_part st part) (\<lambda>pos.
     bindE (vec_at perm pos) (\<lambda>j.
     bindE (vec_at_int (obs_jets st) j) (\<lambda>obj.
     bindE (getObs obj high) (\<lambda>hi.
     bindE (getObs obj low) (\<lambda>lo. Inr (hi - lo))))))"

definition DeltaE_bbar :: "integrand \<Rightarrow> int list \<Rightarrow> real \<Rightarrow> error + real" where
  \<comment> \<open>the block \<^verbatim>\<open>if( hypo==Hypothesis::TTBB ){ ... p *= DeltaE; }\<close>\<close>
  "DeltaE_bbar st perm p =
     (if hypo st = Hypo_TTBB then
        bindE (DeltaE st perm Part_bbar E_HIGH_B E_LOW_B) (\<lambda>d. Inr (p * d))
      else Inr p)"

definition get_permutation_constants :: "integrand \<Rightarrow> int list \<Rightarrow> error + real" where
  "get_permutation_constants st perm =
     (case fs st of
        FS_LH \<Rightarrow>
          bindE (DeltaE st perm Part_q1 E_HIGH_Q E_LOW_Q) (\<lambda>dq.
          bindE (DeltaE st perm Part_b E_HIGH_B E_LOW_B) (\<lambda>db.
          DeltaE_bbar st perm (1 * dq * db)))
      | FS_LL \<Rightarrow>
          bindE (DeltaE st perm Part_b E_HIGH_B E_LOW_B) (\<lambda>db.
          DeltaE_bbar st perm (1 * db))
      | FS_HH \<Rightarrow>
          bindE (DeltaE st perm Part_q1 E_HIGH_Q E_LOW_Q) (\<lambda>dq1.
          bindE (DeltaE st perm Part_q2 E_HIGH_Q E_LOW_Q) (\<lambda>dq2.
          bindE (DeltaE st perm Part_b E_HIGH_B E_LOW_B) (\<lambda>db.
          DeltaE_bbar st perm (1 * dq1 * dq2 * db))))
      | _ \<Rightarrow> Inr 1)"

text \<open>
  The filtering loop of \<^verbatim>\<open>make_assumption\<close> (lines 560-584). The enumeration \<^verbatim>\<open>PSVar\<close>
  is declared in the header, so the value \<^verbatim>\<open>static_cast<size_t>(*it)\<close> of an enumerator
  is the parameter \<open>code\<close>; \<^verbatim>\<open>size_t\<close> has 64 bits, and the subtraction wraps.
\<close>

definition lost_particle :: "(PSVar \<Rightarrow> nat) \<Rightarrow> PSVar \<Rightarrow> nat" where
  \<comment> \<open>\<^verbatim>\<open>(static_cast<size_t>(*it)-1)/3\<close>\<close>
  "lost_particle code v = ((code v + 2 ^ 64 - 1) mod 2 ^ 64) div 3"

fun force_lost :: "(PSVar \<Rightarrow> nat) \<Rightarrow> int list \<Rightarrow> PSVar list \<Rightarrow> nat \<Rightarrow> error + int list" where
  \<comment> \<open>\<^verbatim>\<open>if(cnt%2==0) perm[ lost_particle ] = -1;\<close> for each element of \<^verbatim>\<open>lost\<close>\<close>
  "force_lost code perm [] cnt = Inr perm"
| "force_lost code perm (v # vs) cnt =
     (if cnt mod 2 = 0 then
        (if lost_particle code v < length perm
         then force_lost code (perm[lost_particle code v := - 1]) vs (Suc cnt)
         else Inl OutOfRange)
      else force_lost code perm vs (Suc cnt))"

fun filter_perms :: "(PSVar \<Rightarrow> nat) \<Rightarrow> integrand \<Rightarrow> PSVar list \<Rightarrow> int list list \<Rightarrow> error + integrand" where
  "filter_perms code st lost [] = Inr st"
| "filter_perms code st lost (perm # perms) =
     (case force_lost code perm lost 0 of
        Inl e \<Rightarrow> Inl e
      | Inr perm' \<Rightarrow>
          if length (filter (\<lambda>ind. ind < 0) perm') \<noteq> length lost div 2
          then filter_perms code st lost perms
          else
            (case accept_perm st perm' (perm_pruning (cfg st)) of
               Inl e \<Rightarrow> Inl e
             | Inr ok \<Rightarrow>
                 if \<not> ok then filter_perms code st lost perms
                 else
                   (case get_permutation_constants st perm' of
                      Inl e \<Rightarrow> Inl e
                    | Inr c \<Rightarrow>
                        filter_perms code
                          (st\<lparr>perm_indexes_assumption := perm_indexes_assumption st @ [perm'],
                              perm_const_assumption := perm_const_assumption st @ [c]\<rparr>)
                          lost perms)))"

section \<open>Phase-space point\<close>

record TVector3 =
  v_X :: dbl
  v_Y :: dbl
  v_Z :: dbl

record GenPart =
  gp_lv :: LV
  gp_type :: TFType
  gp_charge :: int

text \<open>
  Modelled from the spec: the class \<^verbatim>\<open>PS\<close> is declared in the header; the phase-space
  point is "a mapping from particle role to a reconstructed four-momentum, a
  transfer-function category, and an electric charge", and \<^verbatim>\<open>ps.set(part, g)\<close> stores
  \<open>g\<close> under the role.
\<close>

type_synonym PS = "PSPart \<rightharpoonup> GenPart"

definition momentum :: "dbl \<Rightarrow> dbl \<Rightarrow> dbl" where
  \<comment> \<open>\<^verbatim>\<open>sqrt(E_phys*E_phys - M*M)\<close>\<close>
  "momentum E_phys M = dsqrt (dsub (dmul E_phys E_phys) (dmul M M))"

definition TLorentzVector :: "TVector3 \<Rightarrow> dbl \<Rightarrow> dbl \<Rightarrow> LV" where
  \<comment> \<open>\<^verbatim>\<open>TLorentzVector( dir*P, E_phys )\<close>\<close>
  "TLorentzVector dir P E_phys =
     \<lparr>lv_Px = dmul (v_X dir) P, lv_Py = dmul (v_Y dir) P, lv_Pz = dmul (v_Z dir) P,
      lv_E = E_phys\<rparr>"

definition extend_PS ::
  "PS \<Rightarrow> PSPart \<Rightarrow> dbl \<Rightarrow> dbl \<Rightarrow> TVector3 \<Rightarrow> int \<Rightarrow> PSVar \<Rightarrow> PSVar \<Rightarrow> PSVar \<Rightarrow> TFType \<Rightarrow> int \<Rightarrow> PS" where
  "extend_PS ps part E M dir pos var_cos var_phi var_E type charge =
     (let E_phys = TMath_Max E M;
          P = momentum E_phys M
      in ps(part \<mapsto> \<lparr>gp_lv = TLorentzVector dir P E_phys, gp_type = type, gp_charge = charge\<rparr>))"

definition extend_PS_nodebug :: "PS \<Rightarrow> PSPart \<Rightarrow> dbl \<Rightarrow> dbl \<Rightarrow> TVector3 \<Rightarrow> PS" where
  "extend_PS_nodebug ps part E M dir =
     (let E_phys = TMath_Max E M;
          P = momentum E_phys M
      in ps(part \<mapsto> \<lparr>gp_lv = TLorentzVector dir P E_phys, gp_type = TF_Unknown, gp_charge = 0\<rparr>))"

section \<open>Probability integrand\<close>

text \<open>
  The collaborators of the integrand are parameters, gathered in a record: the four
  topology builders (each returns the point it fills and its accept code), the
  normalisation constant, the product of transfer functions with the out-of-range
  count it adds to \<^verbatim>\<open>accept\<close>, the decay amplitudes, the scattering amplitude with the
  momentum fractions \<open>x1\<close>, \<open>x2\<close> it sets, the parton densities, the Jacobian of the
  topology without decays, the bounds of \<^verbatim>\<open>get_edges\<close>, the resolution windows of
  \<^verbatim>\<open>get_support\<close>, the orderings that \<^verbatim>\<open>std::sort\<close> and \<^verbatim>\<open>std::next_permutation\<close>
  enumerate, the clock, and the bit \<^verbatim>\<open>IntegrandType::Transfer\<close> of the header.
  They are fixed during one evaluation; what they compute is outside the properties
  below, which concern the control flow around them.
\<close>

record ig_result =
  ig_Integral :: real
  ig_Error :: real
  ig_ChiSqr :: real
  ig_n_calls :: nat
  ig_n_skip :: nat
  ig_error_code :: int

record env =
  create_PS_LH :: "real list \<Rightarrow> int list \<Rightarrow> PS \<times> int"
  create_PS_LL :: "real list \<Rightarrow> int list \<Rightarrow> PS \<times> int"
  create_PS_HH :: "real list \<Rightarrow> int list \<Rightarrow> PS \<times> int"
  create_PS_TTH :: "real list \<Rightarrow> int list \<Rightarrow> PS \<times> int"
  constants :: dbl
  transfer_product :: "PS \<Rightarrow> int list \<Rightarrow> int \<Rightarrow> dbl \<times> int"
  t_decay_amplitude :: "PS \<Rightarrow> PSPart \<Rightarrow> PSPart \<Rightarrow> PSPart \<Rightarrow> dbl"
  H_decay_amplitude :: "PS \<Rightarrow> PSPart \<Rightarrow> PSPart \<Rightarrow> dbl"
  scattering :: "PS \<Rightarrow> dbl \<times> dbl \<times> dbl"
  pdf :: "dbl \<Rightarrow> dbl \<Rightarrow> PS \<Rightarrow> dbl"
  Jac :: "PS \<Rightarrow> dbl"
  IntegrandType_Transfer :: int
  get_edges :: "integrand \<Rightarrow> PSVar list \<Rightarrow> nat \<Rightarrow> bool \<Rightarrow> nat \<Rightarrow> real"
  get_support :: "Object \<Rightarrow> TFType \<Rightarrow> real \<times> real"
  enumerate_perms :: "int list \<Rightarrow> int list list"
  Integral ::
    "(integrand \<Rightarrow> real list \<Rightarrow> error + dbl \<times> integrand) \<Rightarrow> integrand \<Rightarrow> (nat \<Rightarrow> real)
       \<Rightarrow> (nat \<Rightarrow> real) \<Rightarrow> error + ig_result"
  elapsed_ms :: int

definition create_PS :: "env \<Rightarrow> integrand \<Rightarrow> real list \<Rightarrow> int list \<Rightarrow> PS \<times> int" where
  "create_PS env st x perm =
     (case fs st of
        FS_LH \<Rightarrow> create_PS_LH env x perm
      | FS_LL \<Rightarrow> create_PS_LL env x perm
      | FS_HH \<Rightarrow> create_PS_HH env x perm
      | FS_TTH \<Rightarrow> create_PS_TTH env x perm
      | FS_Undefined \<Rightarrow> (Map.empty, 0))"

definition transfer :: "env \<Rightarrow> integrand \<Rightarrow> PS \<Rightarrow> int list \<Rightarrow> int \<Rightarrow> dbl \<times> int \<times> integrand" where
  "transfer env st ps perm accept =
     (if and (int_code (cfg st)) (IntegrandType_Transfer env) = 0 then (Fin 1, accept, st)
      else if fs st = FS_TTH then (Fin 1, accept, st)
      else
        (case transfer_product env ps perm accept of
           (w, accept') \<Rightarrow>
             if TMath_IsNaN w then (Fin 0, accept', st\<lparr>error_code := 1\<rparr>)
             else (w, accept', st)))"

definition matrix_nodecay :: "env \<Rightarrow> integrand \<Rightarrow> PS \<Rightarrow> dbl" where
  "matrix_nodecay env st ps =
     (case scattering env ps of
        (M2, x1, x2) \<Rightarrow>
          (let m = dmul (Fin 1) M2;
               m = dmul m (pdf env x1 x2 ps);
               m = dmul m (Jac env ps)
           in if TMath_IsNaN m then Fin 0 else m))"

definition matrix :: "env \<Rightarrow> integrand \<Rightarrow> PS \<Rightarrow> dbl" where
  "matrix env st ps =
     (if fs st = FS_TTH then matrix_nodecay env st ps
      else
        (case scattering env ps of
           (M2, x1, x2) \<Rightarrow>
             (let m = dmul (Fin 1) (t_decay_amplitude env ps Part_q1 Part_qbar1 Part_b1);
                  m = dmul m (t_decay_amplitude env ps Part_q2 Part_qbar2 Part_b2);
                  m = dmul m (H_decay_amplitude env ps Part_b Part_bbar);
                  m = dmul m M2;
                  m = dmul m (pdf env x1 x2 ps)
              in if TMath_IsNaN m then Fin 0 else m)))"

text \<open>
  \<^verbatim>\<open>probability\<close> returns its value and the state it leaves; the model adds the list
  of the calls it made to \<^verbatim>\<open>create_PS\<close> (with the accept code returned), \<^verbatim>\<open>constants\<close>,
  \<^verbatim>\<open>transfer\<close> and \<^verbatim>\<open>matrix\<close>, in order.
\<close>

datatype call = Call_create_PS int | Call_constants | Call_transfer | Call_matrix

definition probability ::
  "env \<Rightarrow> integrand \<Rightarrow> real list \<Rightarrow> nat \<Rightarrow> error + dbl \<times> integrand \<times> call list" where
  "probability env st x n_perm =
     (if int_code (cfg st) = 0 then Inr (Fin 1, st, [])
      else
        (case vec_at (perm_indexes_assumption st) n_perm of
           Inl e \<Rightarrow> Inl e
         | Inr perm \<Rightarrow>
             (case create_PS env st x perm of
                (ps, accept) \<Rightarrow>
                  if accept < 0 then
                    Inr (Fin 0, st\<lparr>n_skip := Suc (n_skip st)\<rparr>, [Call_create_PS accept])
                  else
                    (let p = dmul (Fin 1) (constants env)
                     in case transfer env st ps perm accept of
                          (w, accept', st') \<Rightarrow>
                            (let p = dmul p w
                             in if tf_suppress (cfg st') \<noteq> 0 \<and> tf_suppress (cfg st') \<le> accept'
                                then Inr (Fin 0, st',
                                       [Call_create_PS accept, Call_constants, Call_transfer])
                                else Inr (dmul p (matrix env st' ps), st',
                                       [Call_create_PS accept, Call_constants, Call_transfer,
                                        Call_matrix]))))))"

fun Eval_loop ::
  "env \<Rightarrow> integrand \<Rightarrow> real list \<Rightarrow> nat list \<Rightarrow> dbl \<Rightarrow> error + dbl \<times> integrand" where
  \<comment> \<open>the loop of \<^verbatim>\<open>Eval\<close> over the remaining values of \<^verbatim>\<open>n_perm\<close>\<close>
  "Eval_loop env st x [] p = Inr (p, st)"
| "Eval_loop env st x (n_perm # rest) p =
     (if perm_int (cfg st) \<noteq> 0 \<and> n_perm \<noteq> this_perm st then Eval_loop env st x rest p
      else
        (case probability env st x n_perm of
           Inl e \<Rightarrow> Inl e
         | Inr (p0, st', trace) \<Rightarrow>
             (case vec_at (perm_const_assumption st') n_perm of
                Inl e \<Rightarrow> Inl e
              | Inr p1 \<Rightarrow> Eval_loop env st' x rest (dadd p (dmul p0 (Fin p1))))))"

definition Eval :: "env \<Rightarrow> integrand \<Rightarrow> real list \<Rightarrow> error + dbl \<times> integrand" where
  "Eval env st x =
     (case Eval_loop env st x [0..<length (perm_indexes_assumption st)] (Fin 0) of
        Inl e \<Rightarrow> Inl e
      | Inr (p, st') \<Rightarrow> Inr (p, st'\<lparr>n_calls := Suc (n_calls st')\<rparr>))"

text \<open>The sum the specification writes, taken in the order of the permutations.\<close>

definition dsum :: "dbl list \<Rightarrow> dbl" where
  "dsum terms = foldl dadd (Fin 0) terms"

definition probability_value :: "env \<Rightarrow> integrand \<Rightarrow> real list \<Rightarrow> nat \<Rightarrow> dbl" where
  "probability_value env st x n_perm =
     (case probability env st x n_perm of Inr (p0, st', trace) \<Rightarrow> p0 | Inl e \<Rightarrow> NaN)"

section \<open>Integration orchestrator\<close>

definition get_width :: "(nat \<Rightarrow> real) \<Rightarrow> (nat \<Rightarrow> real) \<Rightarrow> nat \<Rightarrow> real" where
  "get_width xL xU nvar = foldl (\<lambda>out i. out * \<bar>xU i - xL i\<bar>) 1 [0..<nvar]"

definition after_integral :: "integrand \<Rightarrow> ig_result \<Rightarrow> integrand" where
  \<comment> \<open>the integrator acts on the object only by calling \<^verbatim>\<open>Eval\<close>, which changes the
      two counters and the error flag\<close>
  "after_integral st r =
     st\<lparr>n_calls := ig_n_calls r, n_skip := ig_n_skip r, error_code := ig_error_code r\<rparr>"

fun integrate_each ::
  "env \<Rightarrow> integrand \<Rightarrow> (nat \<Rightarrow> real) \<Rightarrow> (nat \<Rightarrow> real) \<Rightarrow> nat list \<Rightarrow> real \<times> real \<times> real \<times> nat
     \<Rightarrow> error + integrand \<times> real \<times> real \<times> real \<times> nat" where
  \<comment> \<open>the loop \<^verbatim>\<open>if( cfg.perm_int )\<close> of \<^verbatim>\<open>make_assumption\<close>; the last component counts
      the calls of \<^verbatim>\<open>ig2->Integral\<close>\<close>
  "integrate_each env st xL xU [] acc = Inr (st, acc)"
| "integrate_each env st xL xU (n_perm # rest) (prob, err2, chi2, k) =
     (case Integral env (Eval env) (st\<lparr>this_perm := n_perm\<rparr>) xL xU of
        Inl e \<Rightarrow> Inl e
      | Inr r \<Rightarrow>
          integrate_each env (after_integral (st\<lparr>this_perm := n_perm\<rparr>) r) xL xU rest
            (prob + ig_Integral r, err2 + ig_Error r * ig_Error r,
             chi2 + ig_ChiSqr r / real (length (perm_indexes_assumption st)), Suc k))"

definition integrate_joint ::
  "env \<Rightarrow> integrand \<Rightarrow> (nat \<Rightarrow> real) \<Rightarrow> (nat \<Rightarrow> real) \<Rightarrow> real \<times> real \<times> real \<times> nat
     \<Rightarrow> error + integrand \<times> real \<times> real \<times> real \<times> nat" where
  \<comment> \<open>the block \<^verbatim>\<open>if( !cfg.perm_int )\<close> of \<^verbatim>\<open>make_assumption\<close>\<close>
  "integrate_joint env st xL xU acc =
     (case acc of
        (prob, err2, chi2, k) \<Rightarrow>
          (case Integral env (Eval env) st xL xU of
             Inl e \<Rightarrow> Inl e
           | Inr r \<Rightarrow>
               Inr (after_integral st r, prob + ig_Integral r,
                    err2 + ig_Error r * ig_Error r, chi2 + ig_ChiSqr r, Suc k)))"

definition integrate ::
  "env \<Rightarrow> integrand \<Rightarrow> (nat \<Rightarrow> real) \<Rightarrow> (nat \<Rightarrow> real)
     \<Rightarrow> error + integrand \<times> real \<times> real \<times> real \<times> nat" where
  "integrate env st xL xU =
     bindE (if perm_int (cfg st) \<noteq> 0
            then integrate_each env st xL xU [0..<length (perm_indexes_assumption st)]
                   (0, 0, 0, 0)
            else Inr (st, 0, 0, 0, 0))
       (\<lambda>(st', acc).
          if perm_int (cfg st') = 0 then integrate_joint env st' xL xU acc
          else Inr (st', acc))"

definition set_output :: "integrand \<Rightarrow> real \<Rightarrow> MEMOutput \<Rightarrow> real \<times> real \<times> real \<times> nat \<Rightarrow> MEMOutput" where
  \<comment> \<open>\<^verbatim>\<open>if(!cfg.int_code) prob /= volume; out.p = prob; out.p_err = sqrt(err2);\<close>
      \<^verbatim>\<open>out.chi2 = chi2;\<close>\<close>
  "set_output st volume out acc =
     (case acc of
        (prob, err2, chi2, k) \<Rightarrow>
          out\<lparr>out_p := (if int_code (cfg st) = 0 then prob / volume else prob),
              out_p_err := sqrt err2, out_chi2 := chi2\<rparr>)"

definition make_assumption ::
  "env \<Rightarrow> (PSVar \<Rightarrow> nat) \<Rightarrow> integrand \<Rightarrow> PSVar list \<Rightarrow> MEMOutput
     \<Rightarrow> error + integrand \<times> MEMOutput \<times> nat" where
  \<comment> \<open>returns the state, the output record and the number of calls of the integrator\<close>
  "make_assumption env code st lost out =
     (case test_assumption st (length lost div 2) of
        (False, st0) \<Rightarrow> Inr (st0, out, 0)
      | (True, st0) \<Rightarrow>
          (let st1 = fill_map (st0\<lparr>perm_indexes_assumption := []\<rparr>) lost
           in bindE (filter_perms code st1 lost (perm_indexes st1)) (\<lambda>st2.
                let npar = nat (num_of_vars st2 + int (length lost));
                    xL = get_edges env st2 lost npar False;
                    xU = get_edges env st2 lost npar True;
                    volume = get_width xL xU npar
                in bindE (integrate env st2 xL xU) (\<lambda>(st3, acc).
                     Inr (st3, set_output st3 volume out acc, snd (snd (snd acc)))))))"

definition next_hypo :: "integrand \<Rightarrow> integrand" where
  "next_hypo st =
     st\<lparr>perm_indexes := [], perm_indexes_assumption := [], perm_const_assumption := [],
        map_to_var := Map.empty, map_to_part := Map.empty, n_calls := 0, n_skip := 0\<rparr>"

definition addObs :: "Object \<Rightarrow> Observable \<Rightarrow> real \<Rightarrow> Object" where
  \<comment> \<open>Modelled from the spec: \<^verbatim>\<open>Object::addObs\<close> is declared in the header; "observables
      are set at most once"\<close>
  "addObs obj name v =
     (if obj_obs obj name = None then obj\<lparr>obj_obs := (obj_obs obj)(name \<mapsto> v)\<rparr> else obj)"

definition add_edges :: "env \<Rightarrow> Object \<Rightarrow> TFType \<Rightarrow> Observable \<Rightarrow> Observable \<Rightarrow> Object" where
  \<comment> \<open>\<^verbatim>\<open>if( !j->isSet(low) || !j->isSet(high) ){ edges = get_support(...); ... }\<close>\<close>
  "add_edges env j type low high =
     (if obj_obs j low = None \<or> obj_obs j high = None then
        (case get_support env j type of
           (first, second) \<Rightarrow> addObs (addObs j low first) high second)
      else j)"

definition init :: "env \<Rightarrow> integrand \<Rightarrow> FinalState \<Rightarrow> Hypothesis \<Rightarrow> error + integrand" where
  "init env st f h =
     (if length (obs_leptons st) \<noteq> (if f = FS_LH then 1 else if f = FS_LL then 2 else 0)
      then Inl AssertionFailed
      else
        (let naive = (case f of FS_HH \<Rightarrow> 8 | FS_LH \<Rightarrow> 6 | FS_LL \<Rightarrow> 4 | _ \<Rightarrow> 0);
             perm_index = init_perm_index (length (obs_jets st)) naive;
             jets = map (\<lambda>j. add_edges env (add_edges env j TF_qReco E_LOW_Q E_HIGH_Q)
                                 TF_bReco E_LOW_B E_HIGH_B) (obs_jets st);
             unstable = (f = FS_LH \<or> f = FS_LL \<or> f = FS_HH);
             dim = (if unstable then 8
                    else if h = Hypo_TTH then 3 else if h = Hypo_TTBB then 4 else 0)
         in Inr (st\<lparr>hypo := h, fs := f, naive_jet_counting := naive, obs_jets := jets,
                   perm_indexes := perm_indexes st @ enumerate_perms env perm_index,
                   ps_dim := dim,
                   num_of_vars :=
                     3 * int dim - 3 * int (length (obs_leptons st)) - 2 * int naive
                     - (if unstable then 4 else 0)
                     - (if h = Hypo_TTH \<and> unstable then 1 else 0)
                     - (if obs_mets st = [] then 2 else 0)\<rparr>)))"

definition MEMOutput_default :: MEMOutput where
  \<comment> \<open>Modelled from the spec: \<^verbatim>\<open>MEMOutput\<close> is declared in the header; an assumption
      that is skipped "produces a zero-filled result", so the record \<^verbatim>\<open>MEMOutput out;\<close>
      starts with every member zero\<close>
  "MEMOutput_default =
     \<lparr>out_p = 0, out_p_err = 0, out_chi2 = 0, out_time = 0, out_num_perm = 0,
      out_final_state = FS_Undefined, out_hypothesis = Hypo_Undefined, out_assumption = 0,
      out_num_max_calls = 0, out_num_calls = 0, out_efficiency = Fin 0,
      out_error_code = 0\<rparr>"

definition efficiency :: "nat \<Rightarrow> nat \<Rightarrow> dbl" where
  \<comment> \<open>\<^verbatim>\<open>float(n_calls)/(n_calls+n_skip)\<close>\<close>
  "efficiency n m =
     (if n + m = 0 then NaN else Fin (real n / real (n + m)))"

definition run ::
  "env \<Rightarrow> (PSVar \<Rightarrow> nat) \<Rightarrow> integrand \<Rightarrow> FinalState \<Rightarrow> Hypothesis \<Rightarrow> PSVar list
     \<Rightarrow> error + MEMOutput \<times> integrand" where
  "run env code st f h list =
     (case init env st f h of
        Inl e \<Rightarrow> Inl e
      | Inr st1 \<Rightarrow>
          (let st2 = st1\<lparr>n_max_calls :=
                        (if is_default (cfg st1)
                         then calls (cfg st1) (fs st1) h (length list div 2)
                         else cfg_n_max_calls (cfg st1))\<rparr>
           in case make_assumption env code st2 list MEMOutput_default of
                Inl e \<Rightarrow> Inl e
              | Inr (st3, out, k) \<Rightarrow>
                  Inr (out\<lparr>out_time := elapsed_ms env,
                           out_num_perm := length (perm_indexes_assumption st3),
                           out_final_state := fs st3,
                           out_hypothesis := h,
                           out_assumption := length list div 2,
                           out_num_max_calls := n_max_calls st3,
                           out_num_calls := n_calls st3,
                           out_efficiency := efficiency (n_calls st3) (n_skip st3),
                           out_error_code := error_code st3\<rparr>,
                       next_hypo st3)))"

section \<open>Specification-side notions and a sample event\<close>

text \<open>
  The slot the caller's list designates as lost. A variable of the list names a
  quark-level object: the topology builders pair every object with its three variables
  (\<^verbatim>\<open>extend_PS( ps, PSPart::b2, E, MB, dir, perm[nj_b2], PSVar::cos_b2, PSVar::phi_b2,\<close>
  \<^verbatim>\<open>PSVar::E_b2, ...)\<close>). The object's slot in a permutation is the position that
  \<^verbatim>\<open>fill_map\<close> records in \<^verbatim>\<open>map_to_part\<close> and that the builders read
  (\<^verbatim>\<open>nj_b2 = map_to_part.find(PSPart::b2)->second\<close>); it depends on the topology.
\<close>

definition object_of :: "PSVar \<Rightarrow> PSPart" where
  "object_of v =
     (if v \<in> {E_q1, cos_q1, phi_q1} then Part_q1
      else if v \<in> {E_qbar1, cos_qbar1, phi_qbar1} then Part_qbar1
      else if v \<in> {E_b1, cos_b1, phi_b1} then Part_b1
      else if v \<in> {E_q2, cos_q2, phi_q2} then Part_q2
      else if v \<in> {E_qbar2, cos_qbar2, phi_qbar2} then Part_qbar2
      else if v \<in> {E_b2, cos_b2, phi_b2} then Part_b2
      else if v \<in> {E_b, cos_b, phi_b} then Part_b
      else if v \<in> {E_bbar, cos_bbar, phi_bbar} then Part_bbar
      else if v \<in> {P_t, cos_t, phi_t} then Part_t
      else if v \<in> {P_tbar, cos_tbar, phi_tbar} then Part_tbar
      else Part_h)"

definition designated_slot :: "integrand \<Rightarrow> PSVar \<Rightarrow> nat option" where
  "designated_slot st v = map_to_part st (object_of v)"

definition holds_sentinel :: "int list \<Rightarrow> nat option \<Rightarrow> bool" where
  "holds_sentinel p slot = (case slot of None \<Rightarrow> False | Some i \<Rightarrow> i < length p \<and> p ! i = - 1)"

definition designated_forced :: "integrand \<Rightarrow> PSVar list \<Rightarrow> int list \<Rightarrow> bool" where
  \<comment> \<open>the permutation holds \<open>-1\<close> at the slot of every object named in the list\<close>
  "designated_forced st lost p = list_all (\<lambda>v. holds_sentinel p (designated_slot st v)) lost"

definition angle_vars :: "PSVar list" where
  \<comment> \<open>the cosine variables of the eight quark-level objects, the first element of each
      pair of a caller's list (\<^verbatim>\<open>provide first cosTheta\<close>)\<close>
  "angle_vars = [cos_q1, cos_qbar1, cos_b1, cos_q2, cos_qbar2, cos_b2, cos_b, cos_bbar]"

text \<open>
  The permutation constant in the specification's words: the product, over every
  quark-level slot assigned to a real jet, of the width of that jet's energy window,
  of the light-quark kind for the slots of \<open>q1, qbar1, q2, qbar2\<close> and of the b kind for
  the slots of \<open>b1, b2, b, bbar\<close>.
\<close>

definition quark_slots :: "FinalState \<Rightarrow> (PSPart \<times> bool) list" where
  \<comment> \<open>the roles matched to jets in each topology; the flag marks a b quark\<close>
  "quark_slots f =
     (case f of
        FS_LH \<Rightarrow> [(Part_q1, False), (Part_qbar1, False), (Part_b1, True), (Part_b2, True),
                  (Part_b, True), (Part_bbar, True)]
      | FS_LL \<Rightarrow> [(Part_b1, True), (Part_b2, True), (Part_b, True), (Part_bbar, True)]
      | FS_HH \<Rightarrow> [(Part_q1, False), (Part_qbar1, False), (Part_b1, True), (Part_q2, False),
                  (Part_qbar2, False), (Part_b2, True), (Part_b, True), (Part_bbar, True)]
      | _ \<Rightarrow> [])"

definition spec_slot_width :: "integrand \<Rightarrow> int list \<Rightarrow> PSPart \<times> bool \<Rightarrow> real" where
  "spec_slot_width st perm slot =
     (case slot of
        (part, is_b) \<Rightarrow>
          (case map_to_part st part of
             None \<Rightarrow> 1
           | Some pos \<Rightarrow>
               if pos < length perm \<and> 0 \<le> perm ! pos \<and> nat (perm ! pos) < length (obs_jets st)
               then
                 (let obj = obs_jets st ! nat (perm ! pos)
                  in if is_b then the (obj_obs obj E_HIGH_B) - the (obj_obs obj E_LOW_B)
                     else the (obj_obs obj E_HIGH_Q) - the (obj_obs obj E_LOW_Q))
               else 1))"

definition spec_permutation_constant :: "integrand \<Rightarrow> int list \<Rightarrow> real" where
  "spec_permutation_constant st perm =
     prod_list (map (spec_slot_width st perm) (quark_slots (fs st)))"

text \<open>
  The slots whose energy is an integration variable scaled to the jet's window
  (\<^verbatim>\<open>E = E_LOW + (E_HIGH-E_LOW)*x\<close> in the topology builders): the roles that
  \<^verbatim>\<open>get_permutation_constants\<close> visits.
\<close>

definition energy_slots :: "FinalState \<Rightarrow> Hypothesis \<Rightarrow> (PSPart \<times> bool) list" where
  "energy_slots f h =
     (let bbar = (if h = Hypo_TTBB then [(Part_bbar, True)] else [])
      in case f of
           FS_LH \<Rightarrow> [(Part_q1, False), (Part_b, True)] @ bbar
         | FS_LL \<Rightarrow> [(Part_b, True)] @ bbar
         | FS_HH \<Rightarrow> [(Part_q1, False), (Part_q2, False), (Part_b, True)] @ bbar
         | _ \<Rightarrow> [])"

definition real_jet_at :: "integrand \<Rightarrow> int list \<Rightarrow> PSPart \<times> bool \<Rightarrow> bool" where
  \<comment> \<open>the role's slot holds the position of an observed jet whose window is set\<close>
  "real_jet_at st perm slot =
     (case map_to_part st (fst slot) of
        None \<Rightarrow> False
      | Some pos \<Rightarrow>
          pos < length perm \<and> 0 \<le> perm ! pos \<and> nat (perm ! pos) < length (obs_jets st)
          \<and> (let obj = obs_jets st ! nat (perm ! pos)
             in if snd slot then obj_obs obj E_HIGH_B \<noteq> None \<and> obj_obs obj E_LOW_B \<noteq> None
                else obj_obs obj E_HIGH_Q \<noteq> None \<and> obj_obs obj E_LOW_Q \<noteq> None))"

definition cached :: "integrand \<Rightarrow> bool" where
  \<comment> \<open>each constant of the cache is the one computed for the permutation beside it\<close>
  "cached st =
     list_all2 (\<lambda>p c. get_permutation_constants st p = Inr c)
       (perm_indexes_assumption st) (perm_const_assumption st)"

text \<open>
  The numbering of \<^verbatim>\<open>PSVar\<close>, declared in the header, as the comment in
  \<^verbatim>\<open>make_assumption\<close> describes it: \<^verbatim>\<open>*it gives the integ. var. position in PSVar\<close>,
  \<^verbatim>\<open>provide first cosTheta: then *it-1 gives the position of E\<close>, and
  \<^verbatim>\<open>(*it-1) / 3 gives particle position (0=q1,1=qbar1,2=b1,...)\<close>, that is energy,
  cosine and azimuth of \<open>q1, qbar1, b1, q2, qbar2, b2, b, bbar\<close> in turn. The general
  lemmas on the filtering loop hold for every numbering.
\<close>

fun PSVar_code :: "PSVar \<Rightarrow> nat" where
  "PSVar_code E_q1 = 0"
| "PSVar_code cos_q1 = 1"
| "PSVar_code phi_q1 = 2"
| "PSVar_code E_qbar1 = 3"
| "PSVar_code cos_qbar1 = 4"
| "PSVar_code phi_qbar1 = 5"
| "PSVar_code E_b1 = 6"
| "PSVar_code cos_b1 = 7"
| "PSVar_code phi_b1 = 8"
| "PSVar_code E_q2 = 9"
| "PSVar_code cos_q2 = 10"
| "PSVar_code phi_q2 = 11"
| "PSVar_code E_qbar2 = 12"
| "PSVar_code cos_qbar2 = 13"
| "PSVar_code phi_qbar2 = 14"
| "PSVar_code E_b2 = 15"
| "PSVar_code cos_b2 = 16"
| "PSVar_code phi_b2 = 17"
| "PSVar_code E_b = 18"
| "PSVar_code cos_b = 19"
| "PSVar_code phi_b = 20"
| "PSVar_code E_bbar = 21"
| "PSVar_code cos_bbar = 22"
| "PSVar_code phi_bbar = 23"
| "PSVar_code P_t = 24"
| "PSVar_code cos_t = 25"
| "PSVar_code phi_t = 26"
| "PSVar_code P_tbar = 27"
| "PSVar_code cos_tbar = 28"
| "PSVar_code phi_tbar = 29"
| "PSVar_code Pz_h = 30"

definition zero_LV :: LV where
  "zero_LV = \<lparr>lv_Px = Fin 0, lv_Py = Fin 0, lv_Pz = Fin 0, lv_E = Fin 0\<rparr>"

definition sample_jet :: Object where
  "sample_jet =
     \<lparr>obj_p4 = zero_LV,
      obj_obs = [E_LOW_Q \<mapsto> 0, E_HIGH_Q \<mapsto> 2, E_LOW_B \<mapsto> 0, E_HIGH_B \<mapsto> 3]\<rparr>"

definition sample_cfg :: MEMConfig where
  "sample_cfg =
     \<lparr>int_code = 1, perm_int = 0, tf_suppress = 0, perm_pruning = [BTagged, QQbarSymmetry],
      is_default = False, cfg_n_max_calls = 100, calls = (\<lambda>f h n. 0), highpt_first = 0\<rparr>"

definition sample_state :: integrand where
  \<comment> \<open>a single-lepton event with five jets, as \<^verbatim>\<open>init\<close> leaves it\<close>
  "sample_state =
     \<lparr>error_code = 0, num_of_vars = 4, ps_dim = 8, naive_jet_counting = 6, extra_jets = 0,
      fs = FS_LH, hypo = Hypo_TTH, n_calls = 0, n_max_calls = 100, n_skip = 0,
      this_perm = 0, cfg = sample_cfg,
      obs_jets = [sample_jet, sample_jet, sample_jet, sample_jet, sample_jet],
      obs_leptons = [sample_jet], obs_mets = [sample_jet],
      perm_indexes = [[0, - 1, 1, 2, 3, 4], [0, 1, 2, 3, 4, - 1], [- 1, 0, 1, 2, 3, 4]],
      perm_indexes_assumption = [], perm_const_assumption = [],
      map_to_var = Map.empty, map_to_part = Map.empty\<rparr>"

definition one_point_integrator ::
  "(integrand \<Rightarrow> real list \<Rightarrow> error + dbl \<times> integrand) \<Rightarrow> integrand \<Rightarrow> (nat \<Rightarrow> real)
     \<Rightarrow> (nat \<Rightarrow> real) \<Rightarrow> error + ig_result" where
  \<comment> \<open>an integrator that evaluates its function once, at the empty coordinate list\<close>
  "one_point_integrator f st xL xU =
     (case f st [] of
        Inl e \<Rightarrow> Inl e
      | Inr (v, st') \<Rightarrow>
          Inr \<lparr>ig_Integral = (case v of Fin r \<Rightarrow> r | _ \<Rightarrow> 0), ig_Error = 0, ig_ChiSqr = 0,
               ig_n_calls = n_calls st', ig_n_skip = n_skip st',
               ig_error_code = error_code st'\<rparr>)"

definition sample_env :: env where
  "sample_env =
     \<lparr>create_PS_LH = (\<lambda>x perm. (Map.empty, 0)),
      create_PS_LL = (\<lambda>x perm. (Map.empty, 0)),
      create_PS_HH = (\<lambda>x perm. (Map.empty, 0)),
      create_PS_TTH = (\<lambda>x perm. (Map.empty, 0)),
      constants = Fin 1,
      transfer_product = (\<lambda>ps perm accept. (Fin 1, accept)),
      t_decay_amplitude = (\<lambda>ps q qbar b. Fin 1),
      H_decay_amplitude = (\<lambda>ps b bbar. Fin 1),
      scattering = (\<lambda>ps. (Fin 1, Fin (1 / 2), Fin (1 / 2))),
      pdf = (\<lambda>x1 x2 ps. Fin 1),
      Jac = (\<lambda>ps. Fin 1),
      IntegrandType_Transfer = 32,
      get_edges = (\<lambda>st lost nvar edge i. if edge then 1 else 0),
      get_support = (\<lambda>j type. (0, 1)),
      enumerate_perms = (\<lambda>perm_index. [perm_index]),
      Integral = one_point_integrator,
      elapsed_ms = 0\<rparr>"

definition six_jets :: integrand where
  \<comment> \<open>the sample event with a sixth jet and the identity assignment\<close>
  "six_jets =
     sample_state\<lparr>obs_jets := [sample_jet, sample_jet, sample_jet, sample_jet, sample_jet,
                                sample_jet],
                  perm_indexes := [[0, 1, 2, 3, 4, 5]]\<rparr>"

definition inverted_jet :: Object where
  \<comment> \<open>a jet whose light-quark window was supplied with its edges exchanged\<close>
  "inverted_jet =
     \<lparr>obj_p4 = zero_LV,
      obj_obs = [E_LOW_Q \<mapsto> 2, E_HIGH_Q \<mapsto> 1, E_LOW_B \<mapsto> 0, E_HIGH_B \<mapsto> 3]\<rparr>"

definition b2_lost_event :: integrand where
  \<comment> \<open>the sample event (single lepton, five jets for six slots) with two arrangements
      of the index list of \<^verbatim>\<open>init\<close>: the first has its \<open>-1\<close> at the slot of \<open>b2\<close>, the
      second at the slot of \<open>bbar\<close>\<close>
  "b2_lost_event =
     sample_state\<lparr>perm_indexes := [[0, 1, 2, - 1, 3, 4], [0, 1, 2, 3, 4, - 1]]\<rparr>"

definition kept_state :: integrand where
  \<comment> \<open>the sample event after its permutations were filtered for one lost quark, with
      the transfer functions switched on\<close>
  "kept_state =
     sample_state\<lparr>perm_indexes_assumption := [[0, - 1, 1, 2, 3, 4]],
                   perm_const_assumption := [6],
                   cfg := sample_cfg\<lparr>int_code := 32\<rparr>\<rparr>"

definition rejecting_env :: env where
  \<comment> \<open>collaborators whose single-lepton builder rejects every point\<close>
  "rejecting_env = sample_env\<lparr>create_PS_LH := (\<lambda>x perm. (Map.empty, - 1))\<rparr>"

definition nan_density_env :: env where
  \<comment> \<open>collaborators whose parton density is NaN\<close>
  "nan_density_env = sample_env\<lparr>pdf := (\<lambda>x1 x2 ps. NaN)\<rparr>"

definition nan_transfer_env :: env where
  \<comment> \<open>collaborators whose product of transfer functions is NaN\<close>
  "nan_transfer_env = sample_env\<lparr>transfer_product := (\<lambda>ps perm accept. (NaN, accept))\<rparr>"

definition finite_LV :: "LV \<Rightarrow> bool" where
  \<comment> \<open>a well-formed four-vector: four finite components\<close>
  "finite_LV v = (is_finite (lv_Px v) \<and> is_finite (lv_Py v) \<and> is_finite (lv_Pz v)
                  \<and> is_finite (lv_E v))"

definition z_axis :: TVector3 where
  \<comment> \<open>the direction that \<^verbatim>\<open>SetTheta(TMath::ACos(x))\<close> gives for \<open>x = 1\<close>\<close>
  "z_axis = \<lparr>v_X = Fin 0, v_Y = Fin 0, v_Z = Fin 1\<rparr>"

text \<open>
  The permutations an evaluation visits (all of them, or the one selected by
  \<^verbatim>\<open>this_perm\<close> in per-permutation mode) and the term each contributes.
\<close>

definition selected :: "integrand \<Rightarrow> nat \<Rightarrow> bool" where
  "selected st n \<longleftrightarrow> perm_int (cfg st) = 0 \<or> n = this_perm st"

definition term_of :: "env \<Rightarrow> integrand \<Rightarrow> real list \<Rightarrow> nat \<Rightarrow> dbl" where
  "term_of env st x n = dmul (probability_value env st x n) (Fin (perm_const_assumption st ! n))"

text \<open>
  What the filtering loop keeps: a permutation of the enumeration after the loop over
  \<^verbatim>\<open>lost\<close> has written its \<open>-1\<close> entries, whose number of negative entries is the
  assumed lost count.
\<close>

definition kept :: "(PSVar \<Rightarrow> nat) \<Rightarrow> PSVar list \<Rightarrow> int list list \<Rightarrow> int list \<Rightarrow> bool" where
  "kept code lost perms p \<longleftrightarrow>
     (\<exists>q \<in> set perms. force_lost code q lost 0 = Inr p)
     \<and> length (filter (\<lambda>ind. ind < 0) p) = length lost div 2"

section \<open>Properties of the kinematic solver\<close>

lemma sqrt_81_400: "sqrt (81 / 400) = 9 / 20"
  by (rule real_sqrt_unique) (simp_all add: power2_eq_square)

lemma DBL_MAX_pos: "0 < DBL_MAX"
  by (simp add: DBL_MAX_def)

text \<open>
  Claim C2 (massive branch, root selection). The specification selects, when the
  discriminant is negative, whichever of the energies \<open>g\<^sub>+\<cdot>M\<close> and \<open>g\<^sub>-\<cdot>M\<close> is closer to the
  target energy. The code compares the target with the dimensionless roots \<open>g\<^sub>+\<close> and
  \<open>g\<^sub>-\<close> themselves (\<^verbatim>\<open>TMath::Abs(target-g_p)<TMath::Abs(target-g_m)\<close>) and only then
  multiplies the chosen root by \<open>M\<close>. At \<open>P.E = 4\<close>, \<open>cos = 1\<close>, \<open>\<beta> = 4/5\<close>,
  \<open>\<Delta>M\<^sup>2 = 15\<close>, \<open>M = 5\<close> and target \<open>6\<close> both roots are physical (\<open>37/12\<close> and \<open>13/12\<close>),
  \<open>b > 0\<close>, the discriminant is \<open>-63/400\<close>, and solve returns \<open>g\<^sub>+\<cdot>M = 185/12\<close> although
  \<open>g\<^sub>-\<cdot>M = 65/12\<close> is the energy closer to \<open>6\<close>.
\<close>

theorem solve_proximity_compares_roots_not_energies:
  "solve 4 1 (4 / 5) 15 5 6 0 = (185 / 12, 0)
   \<and> root_p (15 / 4 / 5) (1 * (4 / 5)) * 5 = 185 / 12
   \<and> root_m (15 / 4 / 5) (1 * (4 / 5)) * 5 = 65 / 12
   \<and> 1 \<le> root_m (15 / 4 / 5) (1 * (4 / 5))
   \<and> (15 / 4 / 5) * (15 / 4 / 5) + (4 / 5) * (4 / 5)
        - (15 / 4 / 5) * (15 / 4 / 5) * ((4 / 5) * (4 / 5)) - 1 < (0::real)
   \<and> \<bar>6 - 65 / 12\<bar> < \<bar>6 - 185 / (12::real)\<bar>"
  by (simp add: solve_def Let_def root_p_def root_m_def sqrt_81_400)

text \<open>
  Claim C3 as stated (massless branch with the specification's coefficients
  \<open>a = \<Delta>M\<^sup>2 / (P.E \<cdot> M)\<close> and \<open>b = cos \<cdot> \<beta>\<close>) fails: for \<open>M = 1/2000\<close>, \<open>P.E = 2\<close>,
  \<open>cos = 1/2\<close>, \<open>\<beta> = 1/2\<close>, \<open>\<Delta>M\<^sup>2 = 1\<close> the specification's \<open>b\<close> is below 1, yet the value
  returned is not the specification's \<open>a/(1-b)\<close> (the code returns 1, the formula gives
  \<open>4000/3\<close>); and for \<open>cos = 1\<close>, \<open>\<beta> = 1/2\<close> the specification's \<open>b\<close> is \<open>1/2\<close>, below 1,
  yet solve rejects.
\<close>

theorem solve_massless_spec_coefficients_counterexample:
  "(1 / 2000 :: real) < 1 / 1000
   \<and> spec_b (1 / 2) (1 / 2) < 1
   \<and> fst (solve 2 (1 / 2) (1 / 2) 1 (1 / 2000) 0 0)
       \<noteq> spec_a 2 1 (1 / 2000) / (1 - spec_b (1 / 2) (1 / 2))
   \<and> spec_b 1 (1 / 2) < 1
   \<and> solve 2 1 (1 / 2) 1 (1 / 2000) 0 0 = (DBL_MAX, - 1)"
  by (simp add: solve_def Let_def spec_a_def spec_b_def)

text \<open>
  Claim C3, amended: in the massless branch (\<open>M < 10\<^sup>-\<^sup>3\<close>) the coefficients are
  \<open>a = \<Delta>M\<^sup>2 / P.E\<close> (not divided by \<open>M\<close>) and \<open>b = cos(angle(P, e))\<close> (not multiplied by
  \<open>P.\<beta>\<close>). With \<open>b \<ge> 1\<close> solve sets the reject flag to \<open>-1\<close> and returns the sentinel;
  with \<open>b < 1\<close> it returns exactly \<open>a/(1-b)\<close> and leaves the flag as it was.
\<close>

theorem solve_massless:
  assumes "M < 1 / 1000" and "pE \<noteq> 0"
  shows "solve pE cos_angle beta DM2 M target accept =
           (if cos_angle < 1 then ((DM2 / pE) / (1 - cos_angle), accept)
            else (DBL_MAX, - 1))"
  using assms by (simp add: solve_def Let_def)

theorem solve_massless_witness:
  "(1 / 2000 :: real) < 1 / 1000 \<and> (2::real) \<noteq> 0
   \<and> solve 2 (1 / 2) (1 / 2) 1 (1 / 2000) 0 0 = (1, 0)
   \<and> solve 2 1 (1 / 2) 1 (1 / 2000) 0 0 = (DBL_MAX, - 1)"
  using solve_massless [of "1 / 2000" 2 "1 / 2" "1 / 2" 1 0 0]
        solve_massless [of "1 / 2000" 2 1 "1 / 2" 1 0 0]
  by simp

text \<open>
  Claim C4 (massive branch, \<open>M \<ge> 10\<^sup>-\<^sup>3\<close>). With \<open>a = \<Delta>M\<^sup>2 / P.E / M\<close> and
  \<open>b = cos \<cdot> \<beta>\<close>: if the larger root \<open>g\<^sub>+\<close> is below 1 solve rejects; and on every input
  on which solve leaves a clear reject flag clear, the value it returns is \<open>g\<cdot>M\<close> for one
  of the two roots \<open>g\<close>, that root is at least 1, and so the returned energy is at least
  the rest mass \<open>M\<close>. The value returned does not depend on the incoming flag, so the
  conclusion is stated for any incoming flag.
\<close>

theorem solve_massive_energy_at_least_mass:
  assumes "1 / 1000 \<le> M" and "pE \<noteq> 0" and "(cos_angle * beta) * (cos_angle * beta) \<noteq> 1"
  shows "(root_p (DM2 / pE / M) (cos_angle * beta) < 1 \<longrightarrow>
            solve pE cos_angle beta DM2 M target accept = (DBL_MAX, - 1))
       \<and> (snd (solve pE cos_angle beta DM2 M target 0) = 0 \<longrightarrow>
            M \<le> fst (solve pE cos_angle beta DM2 M target accept)
          \<and> (\<exists>g \<in> {root_p (DM2 / pE / M) (cos_angle * beta),
                    root_m (DM2 / pE / M) (cos_angle * beta)}.
                1 \<le> g \<and> fst (solve pE cos_angle beta DM2 M target accept) = g * M))"
proof -
  have M: "0 < M" "\<not> M < 1 / 1000" using assms(1) by simp_all
  have ge: "\<And>g. 1 \<le> g \<Longrightarrow> M \<le> g * M"
    using M(1) by simp
  show ?thesis
    using M(2) by (auto simp add: solve_def Let_def not_less intro: ge split: if_splits)
qed

theorem solve_massive_energy_at_least_mass_witness:
  "(1 / 1000 :: real) \<le> 5 \<and> (4::real) \<noteq> 0 \<and> (1 * (4 / 5)) * (1 * (4 / 5)) \<noteq> (1::real)
   \<and> snd (solve 4 1 (4 / 5) 15 5 6 0) = 0
   \<and> (5::real) \<le> fst (solve 4 1 (4 / 5) 15 5 6 7)
   \<and> fst (solve 4 1 (4 / 5) 15 5 6 7) = 185 / 12"
proof -
  have e: "solve 4 1 (4 / 5) 15 5 6 0 = (185 / 12, 0)"
    by (simp add: solve_def Let_def root_p_def root_m_def sqrt_81_400)
  have f: "solve 4 1 (4 / 5) 15 5 6 7 = (185 / 12, 7)"
    by (simp add: solve_def Let_def root_p_def root_m_def sqrt_81_400)
  show ?thesis
    using solve_massive_energy_at_least_mass [of 5 4 1 "4 / 5" 15 6 7] e f by simp
qed

section \<open>Properties of the permutation engine\<close>

lemma force_lost_length:
  "force_lost code perm lost cnt = Inr perm' \<Longrightarrow> length perm' = length perm"
  by (induction code perm lost cnt rule: force_lost.induct) (auto split: if_splits)

lemma force_lost_set:
  "force_lost code perm lost cnt = Inr perm' \<Longrightarrow> set perm' \<subseteq> insert (- 1) (set perm)"
proof (induction code perm lost cnt rule: force_lost.induct)
  case (1 code perm cnt)
  then show ?case by auto
next
  case (2 code perm v vs cnt)
  show ?case
  proof (cases "cnt mod 2 = 0")
    case True
    with 2 have lt: "lost_particle code v < length perm"
      and r: "force_lost code (perm[lost_particle code v := - 1]) vs (Suc cnt) = Inr perm'"
      by (auto split: if_splits)
    from "2.IH"(1) [OF True lt r]
    have "set perm' \<subseteq> insert (- 1) (set (perm[lost_particle code v := - 1]))" .
    moreover have "set (perm[lost_particle code v := - 1]) \<subseteq> insert (- 1) (set perm)"
      by (rule set_update_subset_insert)
    ultimately show ?thesis by blast
  next
    case False
    with 2 show ?thesis by auto
  qed
qed

lemma force_lost_keeps:
  "force_lost code perm lost cnt = Inr perm' \<Longrightarrow> i < length perm \<Longrightarrow> perm ! i = - 1 \<Longrightarrow> perm' ! i = - 1"
proof (induction code perm lost cnt rule: force_lost.induct)
  case (1 code perm cnt)
  then show ?case by auto
next
  case (2 code perm v vs cnt)
  show ?case
  proof (cases "cnt mod 2 = 0")
    case True
    with 2 have lt: "lost_particle code v < length perm"
      and r: "force_lost code (perm[lost_particle code v := - 1]) vs (Suc cnt) = Inr perm'"
      by (auto split: if_splits)
    have "perm[lost_particle code v := - 1] ! i = - 1"
      using "2.prems"(2,3) lt by (simp add: nth_list_update)
    with "2.IH"(1) [OF True lt r] "2.prems"(2) show ?thesis by simp
  next
    case False
    with 2 show ?thesis by auto
  qed
qed

lemma count_negative:
  "\<forall>i \<in> set p. - 1 \<le> i \<Longrightarrow> length (filter (\<lambda>ind. ind < 0) p) = count_list p (- 1 :: int)"
  by (induction p) auto

lemma init_perm_index_lower: "i \<in> set (init_perm_index n_jets naive) \<Longrightarrow> - 1 \<le> i"
  by (auto simp add: init_perm_index_def)

lemma filter_perms_kept:
  "filter_perms code st lost perms = Inr st' \<Longrightarrow>
   (\<exists>new. perm_indexes_assumption st' = perm_indexes_assumption st @ new
        \<and> (\<forall>p \<in> set new. kept code lost perms p))"
proof (induction perms arbitrary: st)
  case Nil
  then show ?case by simp
next
  case (Cons perm perms)
  have mono: "\<And>p. kept code lost perms p \<Longrightarrow> kept code lost (perm # perms) p"
    by (auto simp add: kept_def)
  from Cons.prems obtain perm' where f: "force_lost code perm lost 0 = Inr perm'"
    by (auto split: sum.splits)
  show ?case
  proof (cases "length (filter (\<lambda>ind. ind < 0) perm') \<noteq> length lost div 2")
    case True
    with Cons.prems f have "filter_perms code st lost perms = Inr st'" by simp
    from Cons.IH [OF this] mono show ?thesis by blast
  next
    case False
    note cnt = this
    from Cons.prems f cnt obtain ok where a: "accept_perm st perm' (perm_pruning (cfg st)) = Inr ok"
      by (auto split: sum.splits)
    show ?thesis
    proof (cases ok)
      case False
      with Cons.prems f cnt a have "filter_perms code st lost perms = Inr st'" by simp
      from Cons.IH [OF this] mono show ?thesis by blast
    next
      case True
      with Cons.prems f cnt a obtain c where
        r: "filter_perms code
              (st\<lparr>perm_indexes_assumption := perm_indexes_assumption st @ [perm'],
                  perm_const_assumption := perm_const_assumption st @ [c]\<rparr>) lost perms = Inr st'"
        by (auto split: sum.splits)
      from Cons.IH [OF r] obtain new where
        n: "perm_indexes_assumption st' = (perm_indexes_assumption st @ [perm']) @ new"
        and k: "\<forall>p \<in> set new. kept code lost perms p" by auto
      have "kept code lost (perm # perms) perm'" using f cnt by (simp add: kept_def)
      with n k mono show ?thesis by (intro exI [of _ "perm' # new"]) auto
    qed
  qed
qed

lemma integrate_each_perms:
  "integrate_each env st xL xU ns acc = Inr (st', acc') \<Longrightarrow>
   perm_indexes_assumption st' = perm_indexes_assumption st"
proof (induction ns arbitrary: st acc)
  case Nil
  then show ?case by simp
next
  case (Cons n ns)
  obtain prob err2 chi2 k where acc: "acc = (prob, err2, chi2, k)" by (cases acc) auto
  from Cons.prems acc obtain r where
    "integrate_each env (after_integral (st\<lparr>this_perm := n\<rparr>) r) xL xU ns
       (prob + ig_Integral r, err2 + ig_Error r * ig_Error r,
        chi2 + ig_ChiSqr r / real (length (perm_indexes_assumption st)), Suc k) = Inr (st', acc')"
    by (auto split: sum.splits)
  from Cons.IH [OF this] show ?case by (simp add: after_integral_def)
qed

lemma integrate_perms:
  "integrate env st xL xU = Inr (st', acc') \<Longrightarrow>
   perm_indexes_assumption st' = perm_indexes_assumption st"
  by (auto simp add: integrate_def integrate_joint_def bindE_def after_integral_def
      split: if_splits sum.splits prod.splits dest: integrate_each_perms)

lemma fill_map_perms:
  "perm_indexes (fill_map st lost) = perm_indexes st"
  "perm_indexes_assumption (fill_map st lost) = perm_indexes_assumption st"
  by (simp_all add: fill_map_def Let_def split: FinalState.splits)

lemma DBL_MAX_large: "1000 \<le> DBL_MAX"
  by (simp add: DBL_MAX_def)

lemma rnd_small: "\<bar>r\<bar> \<le> 1000 \<Longrightarrow> rnd r = Fin r"
  using DBL_MAX_large by (auto simp add: rnd_def)

text \<open>
  The sentinel count of the kept permutations. When \<^verbatim>\<open>make_assumption(lost)\<close> returns,
  every permutation stored in \<^verbatim>\<open>perm_indexes_assumption\<close> has exactly \<open>lost.size()/2\<close>
  entries equal to \<open>-1\<close> and is one of the enumerated permutations after the writes of
  the loop over \<^verbatim>\<open>lost\<close>; a permutation whose count differs is therefore not stored. The
  enumerated permutations are rearrangements of the index list that \<^verbatim>\<open>init\<close> builds
  (jet positions padded with \<open>-1\<close>), and the list of kept permutations is empty on entry
  or the assumption passes the jet-count test (on the early return the list is left as
  it was).
\<close>

lemma make_assumption_sentinel_count:
  assumes run: "make_assumption env code st lost out = Inr (st', out', k)"
    and entry: "naive_jet_counting st \<le> length (obs_jets st) + length lost div 2
                \<or> perm_indexes_assumption st = []"
    and enum: "\<forall>q \<in> set (perm_indexes st).
                 mset q = mset (init_perm_index (length (obs_jets st)) (naive_jet_counting st))"
  shows "\<forall>p \<in> set (perm_indexes_assumption st').
           count_list p (- 1) = length lost div 2
         \<and> (\<exists>q \<in> set (perm_indexes st). force_lost code q lost 0 = Inr p)"
proof (cases "length (obs_jets st) + length lost div 2 < naive_jet_counting st")
  case True
  with run have "st' = st" by (simp add: make_assumption_def test_assumption_def)
  with True entry show ?thesis by simp
next
  case False
  define st1 where
    "st1 = fill_map (st\<lparr>extra_jets := length (obs_jets st) + length lost div 2
                          - naive_jet_counting st, perm_indexes_assumption := []\<rparr>) lost"
  have p1: "perm_indexes st1 = perm_indexes st" and a1: "perm_indexes_assumption st1 = []"
    by (simp_all add: st1_def fill_map_perms)
  from run False obtain st2 acc where
    f: "filter_perms code st1 lost (perm_indexes st1) = Inr st2"
    and i: "integrate env st2
              (get_edges env st2 lost (nat (num_of_vars st2 + int (length lost))) False)
              (get_edges env st2 lost (nat (num_of_vars st2 + int (length lost))) True)
            = Inr (st', acc)"
    by (auto simp add: make_assumption_def test_assumption_def bindE_def Let_def st1_def
        split: sum.splits prod.splits)
  from filter_perms_kept [OF f] a1 p1 integrate_perms [OF i]
  have k: "\<forall>p \<in> set (perm_indexes_assumption st'). kept code lost (perm_indexes st) p"
    by auto
  show ?thesis
  proof
    fix p assume "p \<in> set (perm_indexes_assumption st')"
    with k have "kept code lost (perm_indexes st) p" by blast
    then obtain q where q: "q \<in> set (perm_indexes st)"
      and fq: "force_lost code q lost 0 = Inr p"
      and n: "length (filter (\<lambda>ind. ind < 0) p) = length lost div 2"
      by (auto simp add: kept_def)
    from enum q have "set q = set (init_perm_index (length (obs_jets st)) (naive_jet_counting st))"
      by (auto dest: mset_eq_setD)
    then have "\<forall>i \<in> set q. - 1 \<le> i" by (auto dest: init_perm_index_lower)
    with force_lost_set [OF fq] have "\<forall>i \<in> set p. - 1 \<le> i" by auto
    from count_negative [OF this] n have c: "count_list p (- 1) = length lost div 2" by simp
    from c q fq
    show "count_list p (- 1) = length lost div 2
         \<and> (\<exists>q \<in> set (perm_indexes st). force_lost code q lost 0 = Inr p)"
      by blast
  qed
qed

lemmas sample_defs = sample_state_def sample_cfg_def sample_jet_def sample_env_def one_point_integrator_def
lemmas engine_defs = fill_map_def test_assumption_def bindE_def vec_at_def vec_at_int_def find_part_def find_parts_def getObs_def
  strategy_discards_def eq_at_def and_then_def DeltaE_def DeltaE_bbar_def get_permutation_constants_def lost_particle_def
lemmas integrand_defs = make_assumption_def integrate_def integrate_joint_def set_output_def after_integral_def get_width_def
       Eval_def probability_def create_PS_def transfer_def matrix_def matrix_nodecay_def

lemma sample_make_assumption:
  "\<exists>st' out'. make_assumption sample_env PSVar_code sample_state [cos_qbar1, phi_qbar1] MEMOutput_default
       = Inr (st', out', 1)
     \<and> perm_indexes_assumption st' = [[0, - 1, 1, 2, 3, 4]] \<and> perm_const_assumption st' = [6]"
  by (simp add: integrand_defs sample_defs engine_defs Let_def MEMOutput_default_def rnd_small)

text \<open>
  In the fully hadronic topology the index that the loop computes from a cosine
  variable, \<^verbatim>\<open>(static_cast<size_t>(*it)-1)/3\<close>, is the slot of the object the variable
  names, for each of the eight objects. In the single-lepton topology it is for
  \<open>q1\<close>, \<open>qbar1\<close> and \<open>b1\<close> only: there \<^verbatim>\<open>fill_map\<close> gives \<open>b2\<close>, \<open>b\<close> and \<open>bbar\<close> the slots
  3, 4 and 5, and the loop computes 5, 6 and 7.
\<close>

lemma lost_particle_slot_HH:
  "fs st = FS_HH \<Longrightarrow> v \<in> set angle_vars \<Longrightarrow>
   designated_slot (fill_map st lost) v = Some (lost_particle PSVar_code v)"
  by (auto simp add: angle_vars_def designated_slot_def object_of_def fill_map_def
      lost_particle_def Let_def)

lemma lost_particle_slot_LH:
  "fs st = FS_LH \<Longrightarrow> v \<in> {cos_q1, cos_qbar1, cos_b1, cos_b2, cos_b, cos_bbar} \<Longrightarrow>
   designated_slot (fill_map st lost) v = Some (lost_particle PSVar_code v)
     \<longleftrightarrow> v \<in> {cos_q1, cos_qbar1, cos_b1}"
  by (auto simp add: designated_slot_def object_of_def fill_map_def lost_particle_def Let_def)

text \<open>
  Whatever the numbering of \<^verbatim>\<open>PSVar\<close>, the index computed from \<^verbatim>\<open>cos_b2\<close> is the same in
  every topology, and the slot of \<open>b2\<close> is 3 in the single-lepton and 5 in the fully
  hadronic one: the index cannot be the slot in both.
\<close>

lemma lost_particle_slot_numbering:
  assumes "fs a = FS_LH" and "fs b = FS_HH"
  shows "\<not> (designated_slot (fill_map a lost) cos_b2 = Some (lost_particle code cos_b2)
            \<and> designated_slot (fill_map b lost) cos_b2 = Some (lost_particle code cos_b2))"
  using assms by (simp add: designated_slot_def object_of_def fill_map_def Let_def)

text \<open>
  Claim C5 (designated slots). The specification has the slots that the caller's list
  designates as lost forced to the sentinel in every kept permutation, and the comment
  of the loop says the same (\<^verbatim>\<open>then -1 must be aligned with the lost quark\<close>,
  \<^verbatim>\<open>set the correct index to -1\<close>). The loop writes at the index
  \<^verbatim>\<open>(static_cast<size_t>(*it)-1)/3\<close>, the position of the object in the enumeration
  \<^verbatim>\<open>(0=q1,1=qbar1,2=b1,...)\<close>, which is the object's slot in the fully hadronic topology
  but not in the others. For a single-lepton event with five jets and the list
  \<^verbatim>\<open>{cos_b2, phi_b2}\<close> the slot of \<open>b2\<close> is 3 and the loop writes at 5, the slot of
  \<open>bbar\<close>: the arrangement \<open>[0, 1, 2, -1, 3, 4]\<close>, whose sentinel is at the slot of \<open>b2\<close>,
  receives a second sentinel and is dropped, and the only permutation kept is
  \<open>[0, 1, 2, 3, 4, -1]\<close>, which assigns jet 3 to \<open>b2\<close> and holds its one sentinel at the
  slot of \<open>bbar\<close>.
\<close>

theorem make_assumption_forces_other_slot:
  "\<exists>st' out' k.
     make_assumption sample_env PSVar_code b2_lost_event [cos_b2, phi_b2] MEMOutput_default
       = Inr (st', out', k)
     \<and> perm_indexes b2_lost_event = [[0, 1, 2, - 1, 3, 4], [0, 1, 2, 3, 4, - 1]]
     \<and> perm_indexes_assumption st' = [[0, 1, 2, 3, 4, - 1]]
     \<and> designated_slot st' cos_b2 = Some 3 \<and> designated_slot st' phi_b2 = Some 3
     \<and> lost_particle PSVar_code cos_b2 = 5 \<and> designated_slot st' cos_bbar = Some 5
     \<and> designated_forced st' [cos_b2, phi_b2] [0, 1, 2, - 1, 3, 4]
     \<and> \<not> designated_forced st' [cos_b2, phi_b2] [0, 1, 2, 3, 4, - 1]"
  by (simp add: integrand_defs sample_defs engine_defs Let_def MEMOutput_default_def rnd_small
      b2_lost_event_def designated_forced_def designated_slot_def holds_sentinel_def
      object_of_def)

lemma get_permutation_constants_cong:
  assumes "fs a = fs b" and "hypo a = hypo b" and "map_to_part a = map_to_part b"
    and "obs_jets a = obs_jets b"
  shows "get_permutation_constants a p = get_permutation_constants b p"
proof -
  have d: "\<And>part hi lo. DeltaE a p part hi lo = DeltaE b p part hi lo"
    using assms by (simp add: DeltaE_def find_part_def)
  have e: "\<And>r. DeltaE_bbar a p r = DeltaE_bbar b p r"
    using assms by (simp add: DeltaE_bbar_def d)
  show ?thesis
    unfolding get_permutation_constants_def d e assms(1) ..
qed

lemma get_permutation_constants_static:
  "get_permutation_constants
     (st\<lparr>perm_indexes_assumption := a, perm_const_assumption := c\<rparr>) p
   = get_permutation_constants st p"
  by (rule get_permutation_constants_cong) simp_all

lemma cached_append:
  assumes "cached st" and "get_permutation_constants st p = Inr c"
  shows "cached (st\<lparr>perm_indexes_assumption := perm_indexes_assumption st @ [p],
                    perm_const_assumption := perm_const_assumption st @ [c]\<rparr>)"
  using assms
  by (simp add: cached_def get_permutation_constants_static list_all2_appendI)

lemma filter_perms_cached:
  "filter_perms code st lost perms = Inr st' \<Longrightarrow> cached st \<Longrightarrow> cached st'"
proof (induction perms arbitrary: st)
  case Nil
  then show ?case by simp
next
  case (Cons perm perms)
  from Cons.prems(1) obtain perm' where f: "force_lost code perm lost 0 = Inr perm'"
    by (auto split: sum.splits)
  show ?case
  proof (cases "length (filter (\<lambda>ind. ind < 0) perm') \<noteq> length lost div 2")
    case True
    with Cons.prems f have "filter_perms code st lost perms = Inr st'" by simp
    from Cons.IH [OF this Cons.prems(2)] show ?thesis .
  next
    case False
    note cnt = this
    from Cons.prems(1) f cnt obtain ok where a: "accept_perm st perm' (perm_pruning (cfg st)) = Inr ok"
      by (auto split: sum.splits)
    show ?thesis
    proof (cases ok)
      case False
      with Cons.prems f cnt a have "filter_perms code st lost perms = Inr st'" by simp
      from Cons.IH [OF this Cons.prems(2)] show ?thesis .
    next
      case True
      with Cons.prems(1) f cnt a obtain c where
        g: "get_permutation_constants st perm' = Inr c" and
        r: "filter_perms code
              (st\<lparr>perm_indexes_assumption := perm_indexes_assumption st @ [perm'],
                  perm_const_assumption := perm_const_assumption st @ [c]\<rparr>) lost perms = Inr st'"
        by (auto split: sum.splits)
      from Cons.IH [OF r cached_append [OF Cons.prems(2) g]] show ?thesis .
    qed
  qed
qed

lemma cached_counters:
  "cached (st\<lparr>this_perm := n\<rparr>) = cached st"
  "cached (after_integral st r) = cached st"
proof -
  have "\<And>p. get_permutation_constants (st\<lparr>this_perm := n\<rparr>) p
            = get_permutation_constants st p"
    by (rule get_permutation_constants_cong) simp_all
  then show "cached (st\<lparr>this_perm := n\<rparr>) = cached st" by (simp add: cached_def)
  have "\<And>p. get_permutation_constants (after_integral st r) p
            = get_permutation_constants st p"
    by (rule get_permutation_constants_cong) (simp_all add: after_integral_def)
  then show "cached (after_integral st r) = cached st"
    by (simp add: cached_def) (simp add: after_integral_def)
qed

lemma integrate_each_cached:
  "integrate_each env st xL xU ns acc = Inr (st', acc') \<Longrightarrow> cached st \<Longrightarrow> cached st'"
proof (induction ns arbitrary: st acc)
  case Nil
  then show ?case by simp
next
  case (Cons n ns)
  obtain prob err2 chi2 k where acc: "acc = (prob, err2, chi2, k)" by (cases acc) auto
  from Cons.prems(1) acc obtain r where
    "integrate_each env (after_integral (st\<lparr>this_perm := n\<rparr>) r) xL xU ns
       (prob + ig_Integral r, err2 + ig_Error r * ig_Error r,
        chi2 + ig_ChiSqr r / real (length (perm_indexes_assumption st)), Suc k) = Inr (st', acc')"
    by (auto split: sum.splits)
  from Cons.IH [OF this] Cons.prems(2) show ?case by (simp add: cached_counters)
qed

lemma integrate_cached:
  "integrate env st xL xU = Inr (st', acc') \<Longrightarrow> cached st \<Longrightarrow> cached st'"
  by (auto simp add: integrate_def integrate_joint_def bindE_def cached_counters
      split: if_splits sum.splits prod.splits dest: integrate_each_cached)

lemma cached_fill_map:
  "perm_const_assumption st = [] \<Longrightarrow>
   cached (fill_map (st\<lparr>perm_indexes_assumption := []\<rparr>) lost)"
  by (simp add: cached_def fill_map_def Let_def split: FinalState.splits)

lemma make_assumption_cached:
  assumes run: "make_assumption env code st lost out = Inr (st', out', k)"
    and pass: "naive_jet_counting st \<le> length (obs_jets st) + length lost div 2"
    and empty: "perm_const_assumption st = []"
  shows "cached st'"
proof -
  define st1 where
    "st1 = fill_map (st\<lparr>extra_jets := length (obs_jets st) + length lost div 2
                          - naive_jet_counting st, perm_indexes_assumption := []\<rparr>) lost"
  have c1: "cached st1"
    unfolding st1_def using empty by (intro cached_fill_map) simp
  from run pass obtain st2 acc where
    f: "filter_perms code st1 lost (perm_indexes st1) = Inr st2"
    and i: "integrate env st2
              (get_edges env st2 lost (nat (num_of_vars st2 + int (length lost))) False)
              (get_edges env st2 lost (nat (num_of_vars st2 + int (length lost))) True)
            = Inr (st', acc)"
    by (auto simp add: make_assumption_def test_assumption_def bindE_def Let_def st1_def
        split: sum.splits prod.splits)
  from integrate_cached [OF i filter_perms_cached [OF f c1]] show ?thesis .
qed

lemma make_assumption_cache_length:
  assumes "make_assumption env code st lost out = Inr (st', out', k)"
    and "naive_jet_counting st \<le> length (obs_jets st) + length lost div 2"
    and "perm_const_assumption st = []"
  shows "length (perm_const_assumption st') = length (perm_indexes_assumption st')"
  using make_assumption_cached [OF assms] by (simp add: cached_def list_all2_lengthD)

lemma DeltaE_width:
  assumes "DeltaE st perm part high low = Inr d"
    and "(is_b \<and> high = E_HIGH_B \<and> low = E_LOW_B) \<or> (\<not> is_b \<and> high = E_HIGH_Q \<and> low = E_LOW_Q)"
  shows "d = spec_slot_width st perm (part, is_b) \<and> real_jet_at st perm (part, is_b)"
  using assms
  by (auto simp add: DeltaE_def bindE_def find_part_def vec_at_def vec_at_int_def getObs_def
      spec_slot_width_def real_jet_at_def Let_def split: option.splits if_splits)

lemma DeltaE_bbar_width:
  assumes "DeltaE_bbar st perm p = Inr c"
  shows "c = p * prod_list (map (spec_slot_width st perm)
                 (if hypo st = Hypo_TTBB then [(Part_bbar, True)] else []))
       \<and> list_all (real_jet_at st perm) (if hypo st = Hypo_TTBB then [(Part_bbar, True)] else [])"
proof (cases "hypo st = Hypo_TTBB")
  case True
  with assms obtain d where d: "DeltaE st perm Part_bbar E_HIGH_B E_LOW_B = Inr d" and c: "c = p * d"
    by (auto simp add: DeltaE_bbar_def bindE_def split: sum.splits)
  from DeltaE_width [OF d, of True] c True show ?thesis by simp
next
  case False
  with assms show ?thesis by (simp add: DeltaE_bbar_def)
qed

lemma get_permutation_constants_product:
  assumes "get_permutation_constants st perm = Inr c"
  shows "c = prod_list (map (spec_slot_width st perm) (energy_slots (fs st) (hypo st)))
       \<and> list_all (real_jet_at st perm) (energy_slots (fs st) (hypo st))"
proof (cases "fs st")
  case FS_LH
  with assms obtain dq db where
    q: "DeltaE st perm Part_q1 E_HIGH_Q E_LOW_Q = Inr dq" and
    b: "DeltaE st perm Part_b E_HIGH_B E_LOW_B = Inr db" and
    r: "DeltaE_bbar st perm (1 * dq * db) = Inr c"
    by (auto simp add: get_permutation_constants_def bindE_def split: sum.splits)
  from DeltaE_width [OF q, of False] DeltaE_width [OF b, of True] DeltaE_bbar_width [OF r] FS_LH
  show ?thesis by (simp add: energy_slots_def)
next
  case FS_LL
  with assms obtain db where
    b: "DeltaE st perm Part_b E_HIGH_B E_LOW_B = Inr db" and
    r: "DeltaE_bbar st perm (1 * db) = Inr c"
    by (auto simp add: get_permutation_constants_def bindE_def split: sum.splits)
  from DeltaE_width [OF b, of True] DeltaE_bbar_width [OF r] FS_LL
  show ?thesis by (simp add: energy_slots_def)
next
  case FS_HH
  with assms obtain dq1 dq2 db where
    q1: "DeltaE st perm Part_q1 E_HIGH_Q E_LOW_Q = Inr dq1" and
    q2: "DeltaE st perm Part_q2 E_HIGH_Q E_LOW_Q = Inr dq2" and
    b: "DeltaE st perm Part_b E_HIGH_B E_LOW_B = Inr db" and
    r: "DeltaE_bbar st perm (1 * dq1 * dq2 * db) = Inr c"
    by (auto simp add: get_permutation_constants_def bindE_def split: sum.splits)
  from DeltaE_width [OF q1, of False] DeltaE_width [OF q2, of False] DeltaE_width [OF b, of True]
    DeltaE_bbar_width [OF r] FS_HH
  show ?thesis by (simp add: energy_slots_def)
next
  case FS_TTH
  with assms show ?thesis by (simp add: get_permutation_constants_def energy_slots_def)
next
  case FS_Undefined
  with assms show ?thesis by (simp add: get_permutation_constants_def energy_slots_def)
qed

lemma prod_list_pos: "\<forall>x \<in> set xs. (0::real) < x \<Longrightarrow> 0 < prod_list xs"
  by (induction xs) auto

text \<open>
  Claim C6, amended. For every permutation kept for an assumption, the cached constant
  is the value \<^verbatim>\<open>get_permutation_constants\<close> returns for it, and it equals the product of
  the window widths \<open>E_HIGH - E_LOW\<close> over the slots whose energy is an integration
  variable only (\<open>q1\<close>, \<open>b\<close>, and \<open>bbar\<close> under the hypothesis TTBB, for the single-lepton
  topology; \<open>b\<close> and \<open>bbar\<close> for the dilepton one; \<open>q1\<close>, \<open>q2\<close>, \<open>b\<close> and \<open>bbar\<close> for the hadronic
  one; no slot otherwise), each of which holds a real jet; the constant is strictly
  positive when each of these windows has \<open>E_HIGH > E_LOW\<close>.
\<close>

theorem cached_permutation_constants:
  assumes run: "make_assumption env code st lost out = Inr (st', out', k)"
    and pass: "naive_jet_counting st \<le> length (obs_jets st) + length lost div 2"
    and empty: "perm_const_assumption st = []"
    and n: "n < length (perm_indexes_assumption st')"
  shows "n < length (perm_const_assumption st')
       \<and> get_permutation_constants st' (perm_indexes_assumption st' ! n)
           = Inr (perm_const_assumption st' ! n)
       \<and> perm_const_assumption st' ! n
           = prod_list (map (spec_slot_width st' (perm_indexes_assumption st' ! n))
                          (energy_slots (fs st') (hypo st')))
       \<and> list_all (real_jet_at st' (perm_indexes_assumption st' ! n))
           (energy_slots (fs st') (hypo st'))
       \<and> ((\<forall>slot \<in> set (energy_slots (fs st') (hypo st')).
              0 < spec_slot_width st' (perm_indexes_assumption st' ! n) slot)
            \<longrightarrow> 0 < perm_const_assumption st' ! n)"
proof -
  from make_assumption_cached [OF run pass empty]
  have c: "list_all2 (\<lambda>p c. get_permutation_constants st' p = Inr c)
             (perm_indexes_assumption st') (perm_const_assumption st')"
    by (simp add: cached_def)
  from c n have l: "n < length (perm_const_assumption st')"
    by (simp add: list_all2_lengthD)
  have g: "get_permutation_constants st' (perm_indexes_assumption st' ! n)
             = Inr (perm_const_assumption st' ! n)"
    using list_all2_nthD [OF c n] .
  note p = get_permutation_constants_product [OF g]
  have "0 < perm_const_assumption st' ! n"
    if "\<forall>slot \<in> set (energy_slots (fs st') (hypo st')).
          0 < spec_slot_width st' (perm_indexes_assumption st' ! n) slot"
  proof -
    have "0 < prod_list (map (spec_slot_width st' (perm_indexes_assumption st' ! n))
                           (energy_slots (fs st') (hypo st')))"
      by (rule prod_list_pos) (use that in auto)
    with p show ?thesis by simp
  qed
  with l g p show ?thesis by blast
qed

theorem cached_permutation_constants_witness:
  "\<exists>st' out' k.
     make_assumption sample_env PSVar_code sample_state [cos_qbar1, phi_qbar1] MEMOutput_default
       = Inr (st', out', k)
     \<and> naive_jet_counting sample_state
         \<le> length (obs_jets sample_state) + length [cos_qbar1, phi_qbar1] div 2
     \<and> perm_const_assumption sample_state = []
     \<and> 0 < length (perm_indexes_assumption st')
     \<and> perm_indexes_assumption st' = [[0, - 1, 1, 2, 3, 4]]
     \<and> perm_const_assumption st' ! 0 = 6
     \<and> energy_slots (fs st') (hypo st') = [(Part_q1, False), (Part_b, True)]
     \<and> spec_slot_width st' [0, - 1, 1, 2, 3, 4] (Part_q1, False) = 2
     \<and> spec_slot_width st' [0, - 1, 1, 2, 3, 4] (Part_b, True) = 3
     \<and> get_permutation_constants st' (perm_indexes_assumption st' ! 0) = Inr 6"
proof -
  from sample_make_assumption obtain st' out' where
    r: "make_assumption sample_env PSVar_code sample_state [cos_qbar1, phi_qbar1] MEMOutput_default
          = Inr (st', out', 1)"
    and p: "perm_indexes_assumption st' = [[0, - 1, 1, 2, 3, 4]]"
    and c: "perm_const_assumption st' = [6]" by blast
  have e: "naive_jet_counting sample_state
             \<le> length (obs_jets sample_state) + length [cos_qbar1, phi_qbar1] div 2"
    by (simp add: sample_state_def)
  have m: "perm_const_assumption sample_state = []"
    by (simp add: sample_state_def)
  have n: "0 < length (perm_indexes_assumption st')" using p by simp
  have s: "fs st' = FS_LH \<and> hypo st' = Hypo_TTH
           \<and> spec_slot_width st' [0, - 1, 1, 2, 3, 4] (Part_q1, False) = 2
           \<and> spec_slot_width st' [0, - 1, 1, 2, 3, 4] (Part_b, True) = 3"
    using r
    by (simp add: integrand_defs sample_defs engine_defs Let_def MEMOutput_default_def rnd_small
        spec_slot_width_def) auto
  have c0: "perm_const_assumption st' ! 0 = 6" using c by simp
  have es: "energy_slots (fs st') (hypo st') = [(Part_q1, False), (Part_b, True)]"
    using s by (simp add: energy_slots_def)
  from cached_permutation_constants [OF r e m n] c0
  have g: "get_permutation_constants st' (perm_indexes_assumption st' ! 0) = Inr 6"
    by simp
  from r e m n p c0 es s g show ?thesis by blast
qed

text \<open>
  Claim C6 as stated fails. With six jets, each with a light-quark window of width 2
  and a b window of width 3, and the identity assignment, all six slots hold real jets,
  so the product over all of them is \<open>2\<cdot>2\<cdot>3\<cdot>3\<cdot>3\<cdot>3 = 324\<close>, while the cached constant is
  \<open>2\<cdot>3 = 6\<close> (the slots of \<open>q1\<close> and \<open>b\<close>). And a jet whose light-quark window was supplied
  with \<open>E_HIGH < E_LOW\<close> gives the negative constant \<open>-3\<close>.
\<close>

theorem permutation_constant_all_slots_counterexample:
  "(\<exists>st' out' k.
      make_assumption sample_env PSVar_code six_jets [] MEMOutput_default = Inr (st', out', k)
      \<and> perm_indexes_assumption st' = [[0, 1, 2, 3, 4, 5]]
      \<and> perm_const_assumption st' = [6]
      \<and> spec_permutation_constant st' [0, 1, 2, 3, 4, 5] = 324)
   \<and> (\<exists>st' out' k.
      make_assumption sample_env PSVar_code
        (six_jets\<lparr>obs_jets := [inverted_jet, sample_jet, sample_jet, sample_jet, sample_jet,
                                sample_jet]\<rparr>) [] MEMOutput_default = Inr (st', out', k)
      \<and> perm_indexes_assumption st' = [[0, 1, 2, 3, 4, 5]]
      \<and> perm_const_assumption st' = [- 3])"
  by (simp add: integrand_defs sample_defs engine_defs Let_def MEMOutput_default_def rnd_small
      six_jets_def inverted_jet_def spec_permutation_constant_def spec_slot_width_def
      quark_slots_def)

section \<open>Properties of the probability integrand\<close>

lemma create_PS_counters:
  "create_PS env (st\<lparr>n_skip := a, error_code := b\<rparr>) x perm = create_PS env st x perm"
  by (simp add: create_PS_def)

lemma matrix_fs: "fs s = fs s' \<Longrightarrow> matrix env s ps = matrix env s' ps"
  by (simp add: matrix_def matrix_nodecay_def)

lemma transfer_state:
  "transfer env st ps perm acc = (w, acc', st') \<Longrightarrow> st' = st \<or> st' = st\<lparr>error_code := 1\<rparr>"
  by (auto simp add: transfer_def split: if_splits prod.splits)

lemma transfer_counters:
  "transfer env (st\<lparr>n_skip := a, error_code := b\<rparr>) ps perm acc = (w, acc', st') \<Longrightarrow>
   \<exists>st''. transfer env st ps perm acc = (w, acc', st'')"
  by (auto simp add: transfer_def split: if_splits prod.splits)

lemma probability_counters:
  assumes "probability env (st\<lparr>n_skip := a, error_code := b\<rparr>) x n = Inr (v, st2, tr)"
  shows "probability_value env st x n = v
       \<and> (\<exists>a' b'. st2 = st\<lparr>n_skip := a', error_code := b'\<rparr>)"
proof (cases "int_code (cfg st) = 0")
  case True
  with assms show ?thesis
    by (auto simp add: probability_def probability_value_def)
next
  case False
  note ic = this
  let ?sa = "st\<lparr>n_skip := a, error_code := b\<rparr>"
  from assms ic obtain perm where
    perm: "vec_at (perm_indexes_assumption st) n = Inr perm"
    by (auto simp add: probability_def split: sum.splits)
  obtain ps accept where c: "create_PS env st x perm = (ps, accept)"
    by (cases "create_PS env st x perm") auto
  show ?thesis
  proof (cases "accept < 0")
    case True
    with assms ic perm c have "v = Fin 0" and "st2 = st\<lparr>n_skip := Suc a, error_code := b\<rparr>"
      by (auto simp add: probability_def create_PS_counters)
    moreover from True ic perm c have "probability_value env st x n = Fin 0"
      by (simp add: probability_def probability_value_def)
    ultimately show ?thesis by blast
  next
    case False
    obtain w acc' sa' where t: "transfer env ?sa ps perm accept = (w, acc', sa')"
      by (cases "transfer env ?sa ps perm accept") auto
    from transfer_counters [OF t] obtain st'' where
      t0: "transfer env st ps perm accept = (w, acc', st'')" by blast
    from transfer_state [OF t] have sa: "sa' = ?sa \<or> sa' = ?sa\<lparr>error_code := 1\<rparr>" .
    from transfer_state [OF t0] have s0: "st'' = st \<or> st'' = st\<lparr>error_code := 1\<rparr>" .
    have cf: "cfg sa' = cfg st" "cfg st'' = cfg st" "fs sa' = fs st''"
      using sa s0 by auto
    have m: "matrix env sa' ps = matrix env st'' ps"
      by (rule matrix_fs) (rule cf(3))
    have ex: "\<exists>a' b'. sa' = st\<lparr>n_skip := a', error_code := b'\<rparr>"
      using sa by auto
    from assms ic perm c False t t0 cf m ex show ?thesis
      by (auto simp add: probability_def probability_value_def create_PS_counters Let_def
          split: if_splits)
  qed
qed

lemma probability_total:
  assumes "n < length (perm_indexes_assumption st)"
  shows "\<exists>v st2 tr. probability env st x n = Inr (v, st2, tr)"
  using assms
  by (auto simp add: probability_def vec_at_def Let_def split: prod.splits)

lemma Eval_loop_sum:
  assumes "\<forall>n \<in> set ns. n < length (perm_indexes_assumption st)"
    and "length (perm_const_assumption st) = length (perm_indexes_assumption st)"
  shows "\<exists>a' b'. Eval_loop env (st\<lparr>n_skip := a, error_code := b\<rparr>) x ns p
           = Inr (foldl dadd p (map (term_of env st x) (filter (selected st) ns)),
                  st\<lparr>n_skip := a', error_code := b'\<rparr>)"
  using assms(1)
proof (induction ns arbitrary: a b p)
  case Nil
  then show ?case by auto
next
  case (Cons n ns)
  let ?sa = "st\<lparr>n_skip := a, error_code := b\<rparr>"
  have rest: "\<forall>n \<in> set ns. n < length (perm_indexes_assumption st)" using Cons.prems by simp
  show ?case
  proof (cases "selected st n")
    case False
    then have "Eval_loop env ?sa x (n # ns) p = Eval_loop env ?sa x ns p"
      by (simp add: selected_def)
    with Cons.IH [OF rest, where a = a and b = b and p = p] False show ?thesis by simp
  next
    case True
    have nl: "n < length (perm_indexes_assumption ?sa)" using Cons.prems by simp
    from probability_total [OF nl] obtain v st2 tr where
      pr: "probability env ?sa x n = Inr (v, st2, tr)" by blast
    from probability_counters [OF pr] obtain a' b' where
      v: "probability_value env st x n = v" and s2: "st2 = st\<lparr>n_skip := a', error_code := b'\<rparr>"
      by blast
    have c: "vec_at (perm_const_assumption st2) n = Inr (perm_const_assumption st ! n)"
      using s2 nl assms(2) by (simp add: vec_at_def)
    have "Eval_loop env ?sa x (n # ns) p
            = Eval_loop env (st\<lparr>n_skip := a', error_code := b'\<rparr>) x ns (dadd p (term_of env st x n))"
      using True pr c v s2 by (auto simp add: selected_def term_of_def)
    with Cons.IH [OF rest, where a = a' and b = b' and p = "dadd p (term_of env st x n)"] True
    show ?thesis by simp
  qed
qed

lemma filter_eq_upt: "filter (\<lambda>n. n = k) [0..<N] = (if k < N then [k] else [])"
  by (induction N) auto

lemma filter_selected:
  "filter (selected st) [0..<N]
     = (if perm_int (cfg st) \<noteq> 0 then (if this_perm st < N then [this_perm st] else [])
        else [0..<N])"
proof (cases "perm_int (cfg st) = 0")
  case True
  then show ?thesis by (simp add: selected_def)
next
  case False
  then have "selected st = (\<lambda>n. n = this_perm st)" by (auto simp add: selected_def)
  with False show ?thesis by (simp add: filter_eq_upt)
qed

text \<open>
  Claim C1. For every coordinate vector \<open>x\<close> (inside the integration bounds or not),
  \<^verbatim>\<open>Eval(x)\<close> returns the sum, taken in the order of the permutations kept for the current
  assumption, of \<^verbatim>\<open>probability(x, n_perm)\<close> times the cached constant
  \<^verbatim>\<open>perm_const_assumption[n_perm]\<close>; in per-permutation mode (\<^verbatim>\<open>cfg.perm_int\<close>) the sum is
  restricted to the one permutation \<^verbatim>\<open>this_perm\<close>. The call returns (it reads no vector
  outside its range) when the cache holds one constant per permutation, as
  \<^verbatim>\<open>make_assumption\<close> leaves it, and it counts itself in \<^verbatim>\<open>n_calls\<close>.
\<close>

theorem Eval_sum_over_permutations:
  assumes "length (perm_const_assumption st) = length (perm_indexes_assumption st)"
  shows "\<exists>st'. Eval env st x =
           Inr (dsum (map (\<lambda>n. dmul (probability_value env st x n)
                                   (Fin (perm_const_assumption st ! n)))
                       (if perm_int (cfg st) \<noteq> 0
                        then (if this_perm st < length (perm_indexes_assumption st)
                              then [this_perm st] else [])
                        else [0..<length (perm_indexes_assumption st)])), st')
         \<and> n_calls st' = Suc (n_calls st)"
proof -
  let ?N = "length (perm_indexes_assumption st)"
  have st: "st\<lparr>n_skip := n_skip st, error_code := error_code st\<rparr> = st" by simp
  have r: "\<forall>n \<in> set [0..<?N]. n < ?N" by simp
  from Eval_loop_sum [OF r assms, where env = env and a = "n_skip st" and b = "error_code st"
      and x = x and p = "Fin 0"]
  obtain a' b' where
    "Eval_loop env st x [0..<?N] (Fin 0)
       = Inr (foldl dadd (Fin 0) (map (term_of env st x) (filter (selected st) [0..<?N])),
              st\<lparr>n_skip := a', error_code := b'\<rparr>)"
    unfolding st by blast
  then have "Eval env st x
       = Inr (dsum (map (term_of env st x) (filter (selected st) [0..<?N])),
              st\<lparr>n_skip := a', error_code := b', n_calls := Suc (n_calls st)\<rparr>)"
    by (simp add: Eval_def dsum_def)
  moreover have "term_of env st x
       = (\<lambda>n. dmul (probability_value env st x n) (Fin (perm_const_assumption st ! n)))"
    by (rule ext) (simp add: term_of_def)
  ultimately show ?thesis
    by (simp add: filter_selected)
qed

lemma kept_state_probability:
  "probability sample_env kept_state [] 0
     = Inr (Fin 1, kept_state, [Call_create_PS 0, Call_constants, Call_transfer, Call_matrix])"
  by (simp add: kept_state_def integrand_defs sample_defs vec_at_def rnd_small)

theorem Eval_sum_over_permutations_witness:
  "length (perm_const_assumption kept_state) = length (perm_indexes_assumption kept_state)
   \<and> perm_int (cfg kept_state) = 0
   \<and> (\<exists>st'. Eval sample_env kept_state [] = Inr (Fin 6, st'))
   \<and> probability_value sample_env kept_state [] 0 = Fin 1
   \<and> perm_const_assumption kept_state ! 0 = 6"
proof -
  have l: "length (perm_const_assumption kept_state) = length (perm_indexes_assumption kept_state)"
    by (simp add: kept_state_def sample_state_def)
  have p: "probability_value sample_env kept_state [] 0 = Fin 1"
    by (simp add: probability_value_def kept_state_probability)
  have k: "perm_int (cfg kept_state) = 0" "perm_const_assumption kept_state ! 0 = 6"
    "length (perm_indexes_assumption kept_state) = 1"
    by (simp_all add: kept_state_def sample_state_def sample_cfg_def)
  have "dsum (map (\<lambda>n. dmul (probability_value sample_env kept_state [] n)
                            (Fin (perm_const_assumption kept_state ! n)))
                (if perm_int (cfg kept_state) \<noteq> 0
                 then (if this_perm kept_state < length (perm_indexes_assumption kept_state)
                       then [this_perm kept_state] else [])
                 else [0..<length (perm_indexes_assumption kept_state)])) = Fin 6"
    by (simp add: k p dsum_def rnd_small)
  with Eval_sum_over_permutations [OF l, of sample_env "[]"]
  have "\<exists>st'. Eval sample_env kept_state [] = Inr (Fin 6, st')"
    by (elim exE conjE) (simp only: exI)
  with l p k show ?thesis by blast
qed

text \<open>
  Claim C7. Whenever \<^verbatim>\<open>probability(x, n_perm)\<close> calls \<^verbatim>\<open>create_PS\<close> and the accept code
  returned is negative, the call returns exactly 0, increments \<^verbatim>\<open>n_skip\<close> by one and
  changes nothing else, and \<^verbatim>\<open>create_PS\<close> is the only collaborator it has called: neither
  \<^verbatim>\<open>transfer\<close> nor \<^verbatim>\<open>matrix\<close> is evaluated. (With \<^verbatim>\<open>cfg.int_code\<close> zero \<^verbatim>\<open>probability\<close> returns
  1 before it builds a phase-space point.) The second part gives the call that takes
  this path: a nonzero \<^verbatim>\<open>int_code\<close>, a permutation index in range and a builder that
  rejects.
\<close>

theorem probability_rejected_point:
  "(\<forall>v st' trace accept.
      probability env st x n_perm = Inr (v, st', trace)
        \<and> Call_create_PS accept \<in> set trace \<and> accept < 0
      \<longrightarrow> v = Fin 0 \<and> st' = st\<lparr>n_skip := Suc (n_skip st)\<rparr>
          \<and> trace = [Call_create_PS accept])
   \<and> (int_code (cfg st) \<noteq> 0 \<and> n_perm < length (perm_indexes_assumption st)
        \<and> snd (create_PS env st x (perm_indexes_assumption st ! n_perm)) < 0
      \<longrightarrow> probability env st x n_perm
            = Inr (Fin 0, st\<lparr>n_skip := Suc (n_skip st)\<rparr>,
                   [Call_create_PS (snd (create_PS env st x (perm_indexes_assumption st ! n_perm)))]))"
proof (rule conjI)
  show "\<forall>v st' trace accept.
      probability env st x n_perm = Inr (v, st', trace)
        \<and> Call_create_PS accept \<in> set trace \<and> accept < 0
      \<longrightarrow> v = Fin 0 \<and> st' = st\<lparr>n_skip := Suc (n_skip st)\<rparr>
          \<and> trace = [Call_create_PS accept]"
  proof (intro allI impI)
    fix v st' trace accept
    assume h: "probability env st x n_perm = Inr (v, st', trace)
                 \<and> Call_create_PS accept \<in> set trace \<and> accept < 0"
    then have ic: "int_code (cfg st) \<noteq> 0"
      by (auto simp add: probability_def split: if_splits)
    with h obtain perm where perm: "vec_at (perm_indexes_assumption st) n_perm = Inr perm"
      by (auto simp add: probability_def split: sum.splits)
    obtain ps acc0 where c: "create_PS env st x perm = (ps, acc0)"
      by (cases "create_PS env st x perm") auto
    obtain w acc' sa where t: "transfer env st ps perm acc0 = (w, acc', sa)"
      by (cases "transfer env st ps perm acc0") auto
    have neg: "acc0 < 0"
    proof (rule ccontr)
      assume "\<not> acc0 < 0"
      with h ic perm c t have "accept = acc0"
        by (auto simp add: probability_def Let_def split: if_splits)
      with h \<open>\<not> acc0 < 0\<close> show False by simp
    qed
    with h ic perm c
    show "v = Fin 0 \<and> st' = st\<lparr>n_skip := Suc (n_skip st)\<rparr> \<and> trace = [Call_create_PS accept]"
      by (auto simp add: probability_def)
  qed
  show "int_code (cfg st) \<noteq> 0 \<and> n_perm < length (perm_indexes_assumption st)
        \<and> snd (create_PS env st x (perm_indexes_assumption st ! n_perm)) < 0
      \<longrightarrow> probability env st x n_perm
            = Inr (Fin 0, st\<lparr>n_skip := Suc (n_skip st)\<rparr>,
                   [Call_create_PS (snd (create_PS env st x (perm_indexes_assumption st ! n_perm)))])"
  proof (rule impI)
    assume h: "int_code (cfg st) \<noteq> 0 \<and> n_perm < length (perm_indexes_assumption st)
          \<and> snd (create_PS env st x (perm_indexes_assumption st ! n_perm)) < 0"
    obtain ps acc0 where c: "create_PS env st x (perm_indexes_assumption st ! n_perm) = (ps, acc0)"
      by (cases "create_PS env st x (perm_indexes_assumption st ! n_perm)") auto
    with h show "probability env st x n_perm
              = Inr (Fin 0, st\<lparr>n_skip := Suc (n_skip st)\<rparr>,
                     [Call_create_PS (snd (create_PS env st x (perm_indexes_assumption st ! n_perm)))])"
      by (simp add: probability_def vec_at_def)
  qed
qed

theorem probability_rejected_point_witness:
  "int_code (cfg kept_state) \<noteq> 0 \<and> 0 < length (perm_indexes_assumption kept_state)
   \<and> snd (create_PS rejecting_env kept_state [] (perm_indexes_assumption kept_state ! 0)) = - 1
   \<and> probability rejecting_env kept_state [] 0
       = Inr (Fin 0, kept_state\<lparr>n_skip := Suc (n_skip kept_state)\<rparr>, [Call_create_PS (- 1)])
   \<and> Call_create_PS (- 1) \<in> set [Call_create_PS (- 1)]
   \<and> n_skip kept_state = 0"
proof -
  have a: "int_code (cfg kept_state) \<noteq> 0" "0 < length (perm_indexes_assumption kept_state)"
    "n_skip kept_state = 0"
    by (simp_all add: kept_state_def sample_state_def sample_cfg_def)
  have c: "snd (create_PS rejecting_env kept_state [] (perm_indexes_assumption kept_state ! 0)) = - 1"
    by (simp add: create_PS_def rejecting_env_def sample_env_def kept_state_def sample_state_def)
  have "probability rejecting_env kept_state [] 0
       = Inr (Fin 0, kept_state\<lparr>n_skip := Suc (n_skip kept_state)\<rparr>,
              [Call_create_PS (snd (create_PS rejecting_env kept_state []
                                      (perm_indexes_assumption kept_state ! 0)))])"
    by (rule mp [OF conjunct2 [OF probability_rejected_point]]) (use a c in simp)
  with a c show ?thesis by simp
qed

text \<open>
  Claim C9 holds for \<^verbatim>\<open>transfer\<close> and fails for \<^verbatim>\<open>matrix\<close> and \<^verbatim>\<open>matrix_nodecay\<close>: these
  clamp a NaN product to 0 but never set \<^verbatim>\<open>error_code\<close>. With a parton density that is
  NaN, the matrix-element product is NaN, \<^verbatim>\<open>matrix\<close> returns 0, \<^verbatim>\<open>probability\<close> returns 0
  and leaves the object as it was, \<^verbatim>\<open>error_code\<close> still 0; with a NaN product of
  transfer functions, \<^verbatim>\<open>probability\<close> returns 0 and leaves \<^verbatim>\<open>error_code = 1\<close>.
\<close>

theorem matrix_nan_leaves_error_flag_clear:
  "probability nan_density_env kept_state [] 0
     = Inr (Fin 0, kept_state, [Call_create_PS 0, Call_constants, Call_transfer, Call_matrix])
   \<and> TMath_IsNaN (pdf nan_density_env (Fin (1 / 2)) (Fin (1 / 2)) Map.empty)
   \<and> matrix nan_density_env kept_state Map.empty = Fin 0
   \<and> error_code kept_state = 0
   \<and> probability nan_transfer_env kept_state [] 0
     = Inr (Fin 0, kept_state\<lparr>error_code := 1\<rparr>,
            [Call_create_PS 0, Call_constants, Call_transfer, Call_matrix])"
  by (simp add: kept_state_def integrand_defs sample_defs vec_at_def rnd_small
      nan_density_env_def nan_transfer_env_def)

section \<open>Properties of the orchestrator\<close>

lemma make_assumption_few:
  assumes "length (obs_jets st) + length lost div 2 < naive_jet_counting st"
  shows "make_assumption env code st lost out = Inr (st, out, 0)"
  using assms by (simp add: make_assumption_def test_assumption_def)

text \<open>
  Claim C8. If the number of observed jets plus the assumed number of lost objects is
  smaller than \<^verbatim>\<open>naive_jet_counting\<close>, \<^verbatim>\<open>make_assumption\<close> returns at once: no error, the
  object and the output record untouched, the integrator never called. In \<^verbatim>\<open>run\<close>, which
  enters with the list of kept permutations empty (the constructor, \<^verbatim>\<open>next_event\<close> and
  \<^verbatim>\<open>next_hypo\<close> clear it), with the lepton count that \<^verbatim>\<open>init\<close> asserts and with a fresh
  output record, the result then reports zero permutations and a probability, an error
  and a chi-square of zero, and the call counter and the error flag as they were.
\<close>

theorem too_few_jets_zero_result:
  "(length (obs_jets st) + length lost div 2 < naive_jet_counting st
      \<longrightarrow> make_assumption env code st lost out = Inr (st, out, 0))
   \<and> (length (obs_leptons st) = (if f = FS_LH then 1 else if f = FS_LL then 2 else 0)
      \<and> length (obs_jets st) + length lost div 2
          < (case f of FS_HH \<Rightarrow> 8 | FS_LH \<Rightarrow> 6 | FS_LL \<Rightarrow> 4 | _ \<Rightarrow> 0)
      \<and> perm_indexes_assumption st = []
      \<longrightarrow> (\<exists>out' st'. run env code st f h lost = Inr (out', st')
            \<and> out_p out' = 0 \<and> out_p_err out' = 0 \<and> out_chi2 out' = 0
            \<and> out_num_perm out' = 0 \<and> out_num_calls out' = n_calls st
            \<and> out_error_code out' = error_code st))"
proof (rule conjI)
  show "length (obs_jets st) + length lost div 2 < naive_jet_counting st
      \<longrightarrow> make_assumption env code st lost out = Inr (st, out, 0)"
    by (simp add: make_assumption_few)
  show "length (obs_leptons st) = (if f = FS_LH then 1 else if f = FS_LL then 2 else 0)
      \<and> length (obs_jets st) + length lost div 2
          < (case f of FS_HH \<Rightarrow> 8 | FS_LH \<Rightarrow> 6 | FS_LL \<Rightarrow> 4 | _ \<Rightarrow> 0)
      \<and> perm_indexes_assumption st = []
      \<longrightarrow> (\<exists>out' st'. run env code st f h lost = Inr (out', st')
            \<and> out_p out' = 0 \<and> out_p_err out' = 0 \<and> out_chi2 out' = 0
            \<and> out_num_perm out' = 0 \<and> out_num_calls out' = n_calls st
            \<and> out_error_code out' = error_code st)"
  proof (rule impI)
    assume h: "length (obs_leptons st) = (if f = FS_LH then 1 else if f = FS_LL then 2 else 0)
      \<and> length (obs_jets st) + length lost div 2
          < (case f of FS_HH \<Rightarrow> 8 | FS_LH \<Rightarrow> 6 | FS_LL \<Rightarrow> 4 | _ \<Rightarrow> 0)
      \<and> perm_indexes_assumption st = []"
    then obtain st1 where i: "init env st f h = Inr st1"
      and j: "length (obs_jets st1) = length (obs_jets st)"
      and n: "naive_jet_counting st1 = (case f of FS_HH \<Rightarrow> 8 | FS_LH \<Rightarrow> 6 | FS_LL \<Rightarrow> 4 | _ \<Rightarrow> 0)"
      and a: "perm_indexes_assumption st1 = []"
      and c: "n_calls st1 = n_calls st" "error_code st1 = error_code st"
      by (simp add: init_def Let_def)
    define st2 where "st2 = st1\<lparr>n_max_calls :=
                        (if is_default (cfg st1)
                         then calls (cfg st1) (fs st1) h (length lost div 2)
                         else cfg_n_max_calls (cfg st1))\<rparr>"
    have few: "length (obs_jets st2) + length lost div 2 < naive_jet_counting st2"
      using h j n by (simp add: st2_def)
    have m: "make_assumption env code st2 lost MEMOutput_default = Inr (st2, MEMOutput_default, 0)"
      by (rule make_assumption_few [OF few])
    have "run env code st f h lost =
            Inr (MEMOutput_default\<lparr>out_time := elapsed_ms env,
                           out_num_perm := length (perm_indexes_assumption st2),
                           out_final_state := fs st2,
                           out_hypothesis := h,
                           out_assumption := length lost div 2,
                           out_num_max_calls := n_max_calls st2,
                           out_num_calls := n_calls st2,
                           out_efficiency := efficiency (n_calls st2) (n_skip st2),
                           out_error_code := error_code st2\<rparr>,
                 next_hypo st2)"
      using i m by (simp add: run_def Let_def st2_def)
    then show "\<exists>out' st'. run env code st f h lost = Inr (out', st')
            \<and> out_p out' = 0 \<and> out_p_err out' = 0 \<and> out_chi2 out' = 0
            \<and> out_num_perm out' = 0 \<and> out_num_calls out' = n_calls st
            \<and> out_error_code out' = error_code st"
      using a c by (simp add: st2_def MEMOutput_default_def)
  qed
qed

theorem too_few_jets_zero_result_witness:
  "length (obs_jets sample_state) + length ([] :: PSVar list) div 2 < naive_jet_counting sample_state
   \<and> make_assumption sample_env PSVar_code sample_state [] MEMOutput_default
       = Inr (sample_state, MEMOutput_default, 0)
   \<and> length (obs_leptons sample_state) = 1
   \<and> perm_indexes_assumption sample_state = []
   \<and> (\<exists>out' st'. run sample_env PSVar_code sample_state FS_LH Hypo_TTH [] = Inr (out', st')
         \<and> out_p out' = 0 \<and> out_p_err out' = 0 \<and> out_chi2 out' = 0 \<and> out_num_perm out' = 0)"
proof -
  have a: "length (obs_jets sample_state) + length ([] :: PSVar list) div 2
             < naive_jet_counting sample_state"
    "length (obs_leptons sample_state) = 1" "perm_indexes_assumption sample_state = []"
    by (simp_all add: sample_state_def)
  have b: "length (obs_jets sample_state) + length ([] :: PSVar list) div 2
             < (case FS_LH of FS_HH \<Rightarrow> 8 | FS_LH \<Rightarrow> 6 | FS_LL \<Rightarrow> 4 | _ \<Rightarrow> 0)"
    by (simp add: sample_state_def)
  note t = too_few_jets_zero_result [of sample_state "[]" sample_env PSVar_code MEMOutput_default
      FS_LH Hypo_TTH]
  have m: "make_assumption sample_env PSVar_code sample_state [] MEMOutput_default
       = Inr (sample_state, MEMOutput_default, 0)"
    by (rule mp [OF conjunct1 [OF t] a(1)])
  have "\<exists>out' st'. run sample_env PSVar_code sample_state FS_LH Hypo_TTH [] = Inr (out', st')
            \<and> out_p out' = 0 \<and> out_p_err out' = 0 \<and> out_chi2 out' = 0
            \<and> out_num_perm out' = 0 \<and> out_num_calls out' = n_calls sample_state
            \<and> out_error_code out' = error_code sample_state"
    by (rule mp [OF conjunct2 [OF t]]) (use a b in simp)
  with a m show ?thesis by blast
qed

text \<open>
  The test rejects only an assumption with fewer lost objects than missing jets. With
  five jets for six slots and two objects assumed lost, jets plus lost objects exceed
  the slot count by one: the assumption passes, one permutation is kept and the
  integrator is called.
\<close>

lemma more_lost_than_missing_passes:
  "length (obs_jets sample_state) + length [cos_qbar1, phi_qbar1, cos_b1, phi_b1] div 2
     = Suc (naive_jet_counting sample_state)
   \<and> (\<exists>st' out'. make_assumption sample_env PSVar_code sample_state
                     [cos_qbar1, phi_qbar1, cos_b1, phi_b1] MEMOutput_default
                   = Inr (st', out', 1)
        \<and> perm_indexes_assumption st' = [[0, - 1, - 1, 2, 3, 4]]
        \<and> extra_jets st' = 1)"
  by (simp add: integrand_defs sample_defs engine_defs Let_def MEMOutput_default_def rnd_small)

section \<open>Properties of the phase-space point\<close>

lemma rnd_in_range: "\<bar>r\<bar> \<le> DBL_MAX \<Longrightarrow> rnd r = Fin r"
  by (auto simp add: rnd_def)

lemma rnd_overflow: "rnd (DBL_MAX * DBL_MAX) = PInf"
proof -
  have "DBL_MAX * 1 < DBL_MAX * DBL_MAX"
    using DBL_MAX_large by (intro mult_strict_left_mono) simp_all
  then show ?thesis by (simp add: rnd_def)
qed

lemma TMath_Max_Fin: "TMath_Max (Fin e) (Fin m) = Fin (max e m)"
  by (simp add: TMath_Max_def max_def)

lemma sqrt_le_self:
  assumes "1 \<le> (r::real)"
  shows "sqrt r \<le> r"
proof -
  from assms have "r * 1 \<le> r * r" by (intro mult_left_mono) simp_all
  then have "sqrt r \<le> sqrt (r * r)" by (intro real_sqrt_le_mono) simp
  also have "sqrt (r * r) = r" using assms by simp
  finally show ?thesis .
qed

lemma momentum_in_range:
  assumes "0 \<le> m" and "max e m * max e m \<le> DBL_MAX"
  shows "momentum (Fin (max e m)) (Fin m) = Fin (sqrt (max e m * max e m - m * m))"
    and "0 \<le> max e m * max e m - m * m"
    and "sqrt (max e m * max e m - m * m) \<le> DBL_MAX"
proof -
  let ?E = "max e m"
  have E: "m \<le> ?E" "0 \<le> ?E" using assms(1) by simp_all
  have mm: "m * m \<le> ?E * ?E" using assms(1) E by (intro mult_mono) simp_all
  then show r0: "0 \<le> ?E * ?E - m * m" by simp
  have "0 \<le> m * m" by simp
  with assms(2) have r1: "?E * ?E - m * m \<le> DBL_MAX" by linarith
  have a: "rnd (?E * ?E) = Fin (?E * ?E)"
    using assms(2) E by (intro rnd_in_range) simp
  have b: "rnd (m * m) = Fin (m * m)"
    using assms mm by (intro rnd_in_range) simp
  have c: "rnd (?E * ?E - m * m) = Fin (?E * ?E - m * m)"
    using r0 r1 by (intro rnd_in_range) simp
  show "momentum (Fin ?E) (Fin m) = Fin (sqrt (?E * ?E - m * m))"
    using r0 by (simp add: momentum_def dsub_def a b c)
  show "sqrt (?E * ?E - m * m) \<le> DBL_MAX"
  proof (cases "?E * ?E - m * m \<le> 1")
    case True
    then have "sqrt (?E * ?E - m * m) \<le> 1" by simp
    with DBL_MAX_large show ?thesis by linarith
  next
    case False
    then have "sqrt (?E * ?E - m * m) \<le> ?E * ?E - m * m"
      by (intro sqrt_le_self) simp
    with r1 show ?thesis by linarith
  qed
qed

lemma component_in_range:
  assumes "\<bar>d\<bar> \<le> 1" and "0 \<le> P" and "P \<le> DBL_MAX"
  shows "rnd (d * P) = Fin (d * P)"
proof -
  have "\<bar>d * P\<bar> \<le> 1 * P" unfolding abs_mult using assms by (intro mult_mono) simp_all
  with assms(3) have "\<bar>d * P\<bar> \<le> DBL_MAX" by simp
  then show ?thesis by (rule rnd_in_range)
qed

text \<open>
  Claim C10, amended. \<^verbatim>\<open>extend_PS\<close> and \<^verbatim>\<open>extend_PS_nodebug\<close> store the energy
  \<open>max(E, M)\<close>, which is at least the mass; for a mass \<open>M \<ge> 0\<close>, a unit direction and an
  energy whose square does not overflow (\<open>max(E, M)\<^sup>2\<close> at most the largest double), the
  difference under the root is not negative, the momentum is the finite real
  \<open>sqrt(max(E, M)\<^sup>2 - M\<^sup>2)\<close> and the four-vector stored has four finite components; so a
  solver output below the rest mass gives a particle at rest, not a NaN.
\<close>

theorem extend_PS_clamps_energy:
  assumes "0 \<le> m" and "max e m * max e m \<le> DBL_MAX"
    and "\<bar>dx\<bar> \<le> 1" and "\<bar>dy\<bar> \<le> 1" and "\<bar>dz\<bar> \<le> 1"
  shows "extend_PS ps part (Fin e) (Fin m) \<lparr>v_X = Fin dx, v_Y = Fin dy, v_Z = Fin dz\<rparr>
           pos var_cos var_phi var_E type charge part
         = Some \<lparr>gp_lv = \<lparr>lv_Px = Fin (dx * sqrt (max e m * max e m - m * m)),
                          lv_Py = Fin (dy * sqrt (max e m * max e m - m * m)),
                          lv_Pz = Fin (dz * sqrt (max e m * max e m - m * m)),
                          lv_E = Fin (max e m)\<rparr>,
                 gp_type = type, gp_charge = charge\<rparr>
       \<and> extend_PS_nodebug ps part (Fin e) (Fin m) \<lparr>v_X = Fin dx, v_Y = Fin dy, v_Z = Fin dz\<rparr>
           part
         = Some \<lparr>gp_lv = \<lparr>lv_Px = Fin (dx * sqrt (max e m * max e m - m * m)),
                          lv_Py = Fin (dy * sqrt (max e m * max e m - m * m)),
                          lv_Pz = Fin (dz * sqrt (max e m * max e m - m * m)),
                          lv_E = Fin (max e m)\<rparr>,
                 gp_type = TF_Unknown, gp_charge = 0\<rparr>
       \<and> m \<le> max e m \<and> 0 \<le> max e m * max e m - m * m"
proof -
  note mo = momentum_in_range [OF assms(1,2)]
  have P0: "0 \<le> sqrt (max e m * max e m - m * m)" using mo(2) by simp
  note c = component_in_range [OF _ P0 mo(3)]
  show ?thesis
    using mo(2)
    by (simp add: extend_PS_def extend_PS_nodebug_def Let_def TMath_Max_Fin mo(1)
        TLorentzVector_def c [OF assms(3)] c [OF assms(4)] c [OF assms(5)])
qed

theorem extend_PS_clamps_energy_witness:
  "(0::real) \<le> 5 \<and> max 3 5 * max 3 5 \<le> DBL_MAX
   \<and> \<bar>0::real\<bar> \<le> 1 \<and> \<bar>1::real\<bar> \<le> 1
   \<and> extend_PS Map.empty Part_qbar1 (Fin 3) (Fin 5) \<lparr>v_X = Fin 0, v_Y = Fin 0, v_Z = Fin 1\<rparr>
         1 cos_qbar1 phi_qbar1 E_qbar1 TF_qReco 0 Part_qbar1
       = Some \<lparr>gp_lv = \<lparr>lv_Px = Fin 0, lv_Py = Fin 0, lv_Pz = Fin 0, lv_E = Fin 5\<rparr>,
               gp_type = TF_qReco, gp_charge = 0\<rparr>"
proof -
  have a: "(0::real) \<le> 5" "\<bar>0::real\<bar> \<le> 1" "\<bar>1::real\<bar> \<le> 1" by simp_all
  have b: "max 3 5 * max 3 5 \<le> DBL_MAX" using DBL_MAX_large by simp
  from extend_PS_clamps_energy [OF a(1) b a(2) a(2) a(3), of Map.empty Part_qbar1 1 cos_qbar1
      phi_qbar1 E_qbar1 TF_qReco 0] a b
  show ?thesis by simp
qed

text \<open>
  Claim C10 as stated fails for the sentinel: with \<open>E\<close> the largest double (the "no
  solution" value of \<^verbatim>\<open>solve\<close>, passed on by the builders), mass 0 and the direction of the
  z axis, \<open>E\<^sub>p\<^sub>h\<^sub>y\<^sub>s\<^sup>2\<close> overflows, the momentum magnitude is \<open>+\<infinity>\<close> and the four-vector
  stored has the components \<open>(NaN, NaN, +\<infinity>, E)\<close>.
\<close>

theorem extend_PS_sentinel_counterexample:
  "extend_PS Map.empty Part_qbar2 (Fin DBL_MAX) (Fin 0) z_axis (- 1) cos_qbar2 phi_qbar2 E_qbar2
     TF_MET 0 Part_qbar2
     = Some \<lparr>gp_lv = \<lparr>lv_Px = NaN, lv_Py = NaN, lv_Pz = PInf, lv_E = Fin DBL_MAX\<rparr>,
             gp_type = TF_MET, gp_charge = 0\<rparr>
   \<and> momentum (TMath_Max (Fin DBL_MAX) (Fin 0)) (Fin 0) = PInf
   \<and> \<not> finite_LV \<lparr>lv_Px = NaN, lv_Py = NaN, lv_Pz = PInf, lv_E = Fin DBL_MAX\<rparr>"
proof -
  have z: "rnd 0 = Fin 0" using DBL_MAX_large by (simp add: rnd_def)
  have m: "TMath_Max (Fin DBL_MAX) (Fin 0) = Fin DBL_MAX"
    using DBL_MAX_large by (simp add: TMath_Max_def)
  have p: "momentum (Fin DBL_MAX) (Fin 0) = PInf"
    by (simp add: momentum_def dsub_def rnd_overflow z)
  show ?thesis
    by (simp add: extend_PS_def Let_def m p TLorentzVector_def z_axis_def finite_LV_def)
qed

end
